theory Spec2Isabelle
  imports
    Main
    "HOL-Library.DAList"
    "HOL-Library.List_Lexorder"
    "HOL-Library.Char_ord"
begin

section \<open>Data model of \<^verbatim>\<open>pkg/apply/desiredset_process.go\<close>\<close>

text \<open>
  The object key of the \<^verbatim>\<open>objectset\<close> package: \<^verbatim>\<open>{Namespace, Name}\<close>, comparable, used as
  a map key. Cluster-scoped objects use the empty namespace.
\<close>

record ObjectKey =
  Namespace :: string
  Name :: string

record GroupKind =
  gk_Group :: string
  gk_Kind :: string

record GroupVersionKind =
  Group :: string
  Version :: string
  Kind :: string

definition GroupKind_of :: "GroupVersionKind \<Rightarrow> GroupKind" where
  "GroupKind_of gvk = \<lparr>gk_Group = Group gvk, gk_Kind = Kind gvk\<rparr>"

text \<open>
  Errors are values. \<^verbatim>\<open>ErrReplace\<close> is the package-level sentinel of the source, compared by
  identity (\<^verbatim>\<open>err == ErrReplace\<close>); a status error carries the reason the API server gave;
  \<^verbatim>\<open>errors.Wrapf\<close> and \<^verbatim>\<open>fmt.Errorf\<close> keep their format string and arguments unformatted.
\<close>

datatype fmtarg = S string | K ObjectKey | G GroupVersionKind

datatype StatusReason = AlreadyExists | NotFound | OtherReason string

datatype error =
    ErrReplace
  | ErrNoInformerFound
  | ErrNoAccessor
  | StatusError StatusReason
  | ErrOther string
  | Wrapf error string "fmtarg list"
  | Errorf string "fmtarg list" "error option"
  | Errors "error list"

text \<open>
  \<^verbatim>\<open>errors2.IsAlreadyExists\<close> of apimachinery: the reason of the first status error on the
  unwrap chain is \<^verbatim>\<open>AlreadyExists\<close>; false on \<^verbatim>\<open>nil\<close>.
\<close>

fun IsAlreadyExists_err :: "error \<Rightarrow> bool" where
  "IsAlreadyExists_err (StatusError r) = (r = AlreadyExists)"
| "IsAlreadyExists_err (Wrapf e _ _) = IsAlreadyExists_err e"
| "IsAlreadyExists_err (Errorf _ _ (Some e)) = IsAlreadyExists_err e"
| "IsAlreadyExists_err _ = False"

definition IsAlreadyExists :: "error option \<Rightarrow> bool" where
  "IsAlreadyExists err = (case err of None \<Rightarrow> False | Some e \<Rightarrow> IsAlreadyExists_err e)"

text \<open>Modelled from the spec: \<^verbatim>\<open>merr.NewErrors\<close>, declared in another package of the
  repository. The lister "returns an aggregated multi-error", and a non-nil result means
  "listing incomplete"; so no collected error gives \<^verbatim>\<open>nil\<close>, anything else the aggregate.
\<close>

definition NewErrors :: "error list \<Rightarrow> error option" where
  "NewErrors errs = (if errs = [] then None else Some (Errors errs))"

record OwnerReference =
  ref_APIVersion :: string
  ref_Kind :: string
  ref_Name :: string
  ref_UID :: string
  ref_Controller :: bool
  ref_BlockOwnerDeletion :: bool

record ObjectMeta =
  meta_Namespace :: string
  meta_Name :: string
  meta_UID :: string
  meta_Labels :: "(string \<times> string) list"
  meta_OwnerReferences :: "OwnerReference list"

text \<open>
  A \<^verbatim>\<open>runtime.Object\<close> (or an \<^verbatim>\<open>interface{}\<close> of an informer cache): its metadata when
  \<^verbatim>\<open>meta.Accessor\<close> can reach it, and the rest of the object as an opaque body.
\<close>

datatype Object = Object (metadata: "ObjectMeta option") (body: string)

definition Accessor :: "Object \<Rightarrow> error + ObjectMeta" where
  "Accessor obj = (case metadata obj of None \<Rightarrow> Inl ErrNoAccessor | Some m \<Rightarrow> Inr m)"

text \<open>\<^verbatim>\<open>m[key]\<close> on a Go \<^verbatim>\<open>map[string]string\<close>: the empty string when the key is absent.\<close>

definition GetLabel :: "(string \<times> string) list \<Rightarrow> string \<Rightarrow> string" where
  "GetLabel labels key = (case map_of labels key of None \<Rightarrow> [] | Some v \<Rightarrow> v)"

text \<open>
  \<^verbatim>\<open>objectset.ObjectByKey\<close> is a Go map from key to object: keys are unique, and \<^verbatim>\<open>range\<close>
  visits the entries in an order the language leaves open. The list behind the association
  list is one such order; every statement below holds for all of them.
\<close>

type_synonym ObjectByKey = "(ObjectKey, Object) alist"

text \<open>Modelled from the spec: the constant \<^verbatim>\<open>LabelPrune\<close>, declared in another file of the
  package. The spec writes the override \<^verbatim>\<open>"prune=false"\<close>, so the label is \<^verbatim>\<open>prune\<close>; no
  statement below depends on the value.
\<close>

definition LabelPrune :: string where
  "LabelPrune = ''prune''"

text \<open>Modelled from the spec: \<^verbatim>\<open>ObjectKey.String\<close>, declared in the \<^verbatim>\<open>objectset\<close> package:
  the "deterministic string form of the key (namespace/name)". The sortedness proved below
  holds for any string form.
\<close>

definition ObjectKey_String :: "ObjectKey \<Rightarrow> string" where
  "ObjectKey_String k = Namespace k @ ''/'' @ Name k"

section \<open>Set Differ\<close>

definition shouldPrune :: "Object \<Rightarrow> bool" where
  "shouldPrune obj =
     (case Accessor obj of
        Inl err \<Rightarrow> True
      | Inr meta \<Rightarrow> GetLabel (meta_Labels meta) LabelPrune \<noteq> ''false'')"

text \<open>
  \<^verbatim>\<open>sort.Slice\<close> with \<^verbatim>\<open>keys[i].String() < keys[j].String()\<close>; Go compares strings byte by
  byte, which is the lexicographic order of \<^typ>\<open>char list\<close>. \<^verbatim>\<open>sort.Slice\<close> is not stable;
  the model sorts by insertion, and nothing below depends on the order of keys with equal
  string forms.
\<close>

definition sortObjectKeys :: "ObjectKey list \<Rightarrow> ObjectKey list" where
  "sortObjectKeys keys = sort_key ObjectKey_String keys"

text \<open>The first loop of \<^verbatim>\<open>compareSets\<close>, over the desired set; the state is (toCreate, toUpdate).\<close>

definition compareSets_new ::
  "ObjectByKey \<Rightarrow> ObjectKey \<times> Object \<Rightarrow> ObjectKey list \<times> ObjectKey list
     \<Rightarrow> ObjectKey list \<times> ObjectKey list" where
  "compareSets_new existingSet entry acc =
     (case (entry, acc) of ((k, _), (toCreate, toUpdate)) \<Rightarrow>
        (case DAList.lookup existingSet k of
           Some _ \<Rightarrow> (toCreate, toUpdate @ [k])
         | None \<Rightarrow> (toCreate @ [k], toUpdate)))"

text \<open>The second loop, over the existing set; the state is toDelete.\<close>

definition compareSets_existing ::
  "ObjectByKey \<Rightarrow> ObjectKey \<times> Object \<Rightarrow> ObjectKey list \<Rightarrow> ObjectKey list" where
  "compareSets_existing newSet entry toDelete =
     (case entry of (k, obj) \<Rightarrow>
        (case DAList.lookup newSet k of
           Some _ \<Rightarrow> toDelete
         | None \<Rightarrow> (if shouldPrune obj then toDelete @ [k] else toDelete)))"

text \<open>The result is (toCreate, toDelete, toUpdate), in the order of the source.\<close>

definition compareSets ::
  "ObjectByKey \<Rightarrow> ObjectByKey \<Rightarrow> ObjectKey list \<times> ObjectKey list \<times> ObjectKey list" where
  "compareSets existingSet newSet =
     (let (toCreate, toUpdate) =
            fold (compareSets_new existingSet) (DAList.impl_of newSet) ([], []);
          toDelete = fold (compareSets_existing newSet) (DAList.impl_of existingSet) []
      in (sortObjectKeys toCreate, sortObjectKeys toDelete, sortObjectKeys toUpdate))"

definition toCreate_of :: "ObjectKey list \<times> ObjectKey list \<times> ObjectKey list \<Rightarrow> ObjectKey list" where
  "toCreate_of r = fst r"

definition toDelete_of :: "ObjectKey list \<times> ObjectKey list \<times> ObjectKey list \<Rightarrow> ObjectKey list" where
  "toDelete_of r = fst (snd r)"

definition toUpdate_of :: "ObjectKey list \<times> ObjectKey list \<times> ObjectKey list \<Rightarrow> ObjectKey list" where
  "toUpdate_of r = snd (snd r)"

section \<open>The reconciliation and its collaborators\<close>

type_synonym Selector = string
type_synonym PatchType = string
type_synonym bytes = string

text \<open>Modelled from the spec: the \<^verbatim>\<open>Plan\<close> type, declared in another file of the package.
  Create and Delete map a kind to its ordered keys, and Update is "a flat list of (kind,
  namespace, name, patch-body-string) update records".
\<close>

record Plan =
  plan_Create :: "GroupVersionKind \<rightharpoonup> ObjectKey list"
  plan_Delete :: "GroupVersionKind \<rightharpoonup> ObjectKey list"
  plan_Update :: "(GroupVersionKind \<times> string \<times> string \<times> string) list"

text \<open>Modelled from the spec: \<^verbatim>\<open>o.plan.Update.Add\<close>, declared with the plan. The recording
  function "appends" the body "to the plan's update list".
\<close>

definition Update_Add ::
  "GroupVersionKind \<Rightarrow> string \<Rightarrow> string \<Rightarrow> string \<Rightarrow> Plan \<Rightarrow> Plan" where
  "Update_Add gvk namespace name patch p =
     p\<lparr>plan_Update := plan_Update p @ [(gvk, namespace, name, patch)]\<rparr>"

text \<open>
  What one call of \<^verbatim>\<open>process\<close> can change: the remote store (of any type \<^typ>\<open>'s\<close>), the
  error sink \<^verbatim>\<open>o.errs\<close> and the plan \<^verbatim>\<open>o.plan\<close>. Logging is left out.
\<close>

record 's state =
  st_store :: 's
  st_errs :: "error list"
  st_plan :: Plan

text \<open>Modelled from the spec: the method \<^verbatim>\<open>o.err\<close>, declared in another file of the package.
  The error sink "accepts one error at a time; accumulates for later aggregate reporting;
  never throws".
\<close>

definition o_err :: "error \<Rightarrow> 's state \<Rightarrow> 's state" where
  "o_err e st = st\<lparr>st_errs := st_errs st @ [e]\<rparr>"

text \<open>
  A patcher returns \<^verbatim>\<open>(runtime.Object, error)\<close>; a reconciler returns \<^verbatim>\<open>(bool, error)\<close>. Both
  are closures of the caller and may act on whatever they are run on.
\<close>

type_synonym 'w Patcher =
  "string \<Rightarrow> string \<Rightarrow> PatchType \<Rightarrow> bytes \<Rightarrow> 'w \<Rightarrow> (Object option \<times> error option) \<times> 'w"

type_synonym 'w Reconciler =
  "Object option \<Rightarrow> Object option \<Rightarrow> 'w \<Rightarrow> (bool \<times> error option) \<times> 'w"

text \<open>
  An informer is what \<^verbatim>\<open>cache.ListAllByNamespace\<close> reads from it: for a namespace and a
  selector, the cached items handed to the callback and the error returned.
\<close>

type_synonym Informer = "string \<Rightarrow> Selector \<Rightarrow> Object list \<times> error option"

text \<open>
  The functions that \<^verbatim>\<open>desiredset_process.go\<close> calls and does not declare are parameters:
  the client lookup \<^verbatim>\<open>o.a.clients\<close>, \<^verbatim>\<open>gvk.Get\<close>, the verbs \<^verbatim>\<open>o.create\<close>, \<^verbatim>\<open>o.get\<close>,
  \<^verbatim>\<open>o.delete\<close>, the dynamic client's \<^verbatim>\<open>Patch\<close> and \<^verbatim>\<open>List\<close> (the \<^typ>\<open>string option\<close> is the
  \<^verbatim>\<open>Namespace(...)\<close> scope), \<^verbatim>\<open>prepareObjectForCreate\<close>, \<^verbatim>\<open>sanitizePatch\<close> and
  \<^verbatim>\<open>o.compareObjects\<close>. A client handle has any type \<^typ>\<open>'c\<close>. Reads (\<^verbatim>\<open>get\<close>, \<^verbatim>\<open>List\<close>) return
  no new store.
\<close>

record ('s, 'c) deps =
  clients_client :: "GroupVersionKind \<Rightarrow> error + 'c"
  clients_IsNamespaced :: "GroupVersionKind \<Rightarrow> error + bool"
  gvk_Get :: "Object \<Rightarrow> error + GroupVersionKind"
  do_create :: "bool \<Rightarrow> string \<Rightarrow> 'c \<Rightarrow> Object \<Rightarrow> 's \<Rightarrow> error option \<times> 's"
  do_get :: "bool \<Rightarrow> string \<Rightarrow> string \<Rightarrow> 'c \<Rightarrow> 's \<Rightarrow> error + Object"
  do_delete ::
    "bool \<Rightarrow> string \<Rightarrow> string \<Rightarrow> 'c \<Rightarrow> bool \<Rightarrow> GroupVersionKind \<Rightarrow> 's \<Rightarrow> error option \<times> 's"
  client_Patch ::
    "'c \<Rightarrow> string option \<Rightarrow> string \<Rightarrow> PatchType \<Rightarrow> bytes \<Rightarrow> 's
       \<Rightarrow> (Object option \<times> error option) \<times> 's"
  client_List :: "'c \<Rightarrow> string option \<Rightarrow> Selector \<Rightarrow> 's \<Rightarrow> error + Object list"
  prepareObjectForCreate :: "GroupVersionKind \<Rightarrow> Object option \<Rightarrow> error + Object"
  sanitizePatch :: "bytes \<Rightarrow> bool \<Rightarrow> error + bytes"
  compareObjects ::
    "GroupVersionKind \<Rightarrow> 's state Reconciler option \<Rightarrow> 's state Patcher \<Rightarrow> 'c \<Rightarrow> string
       \<Rightarrow> Object option \<Rightarrow> Object option \<Rightarrow> bool \<Rightarrow> 's state \<Rightarrow> error option \<times> 's state"

text \<open>
  The fields of \<^verbatim>\<open>desiredSet\<close> that the file reads. \<^verbatim>\<open>o_objs\<close> is the overall multi-kind
  desired collection (an \<^verbatim>\<open>objectset.ObjectSet\<close>), kept as the kind and key of each object.
  A Go map lookup that can tell an absent key from a nil value (\<^verbatim>\<open>o.pruneTypes\<close>) has two
  options; \<^verbatim>\<open>None\<close> is \<^verbatim>\<open>nil\<close>.
\<close>

record 's desiredSet =
  o_pruneTypes :: "GroupVersionKind \<Rightarrow> Informer option option"
  o_a_informers :: "GroupVersionKind \<Rightarrow> Informer option"
  o_informerFactory :: "(GroupVersionKind \<Rightarrow> error + Informer option) option"
  o_strictCaching :: bool
  o_owner :: "Object option"
  o_ownerReferenceController :: bool
  o_ownerReferenceBlock :: bool
  o_defaultNamespace :: string
  o_listerNamespace :: string
  o_objs :: "(GroupVersionKind \<times> ObjectKey) list"
  o_restrictClusterScoped :: bool
  o_setOwnerReference :: bool
  o_createPlan :: bool
  o_patchers :: "GroupVersionKind \<Rightarrow> 's Patcher option"
  o_reconcilers :: "GroupVersionKind \<Rightarrow> 's Reconciler option"

text \<open>Running a call or a closure of the caller on the store inside the state.\<close>

definition on_store :: "('s \<Rightarrow> 'r \<times> 's) \<Rightarrow> 's state \<Rightarrow> 'r \<times> 's state" where
  "on_store f st = (case f (st_store st) of (r, s) \<Rightarrow> (r, st\<lparr>st_store := s\<rparr>))"

definition on_store_patcher :: "'s Patcher \<Rightarrow> 's state Patcher" where
  "on_store_patcher p = (\<lambda>namespace name pt data. on_store (p namespace name pt data))"

definition on_store_reconciler :: "'s Reconciler \<Rightarrow> 's state Reconciler" where
  "on_store_reconciler r = (\<lambda>old new. on_store (r old new))"

subsection \<open>Client and informer lookup\<close>

definition getControllerAndClient_strict ::
  "'s desiredSet \<Rightarrow> string \<Rightarrow> GroupVersionKind \<Rightarrow> Informer option \<Rightarrow> 'c
     \<Rightarrow> error + (Informer option \<times> 'c)" where
  "getControllerAndClient_strict o' debugID gvk informer client =
     (if informer = None \<and> o_strictCaching o'
      then Inl (Errorf ''failed to find informer for %s for %s: %w'' [G gvk, S debugID]
                  (Some ErrNoInformerFound))
      else Inr (informer, client))"

definition getControllerAndClient ::
  "('s, 'c) deps \<Rightarrow> 's desiredSet \<Rightarrow> string \<Rightarrow> GroupVersionKind
     \<Rightarrow> error + (Informer option \<times> 'c)" where
  "getControllerAndClient co o' debugID gvk =
     (case clients_client co gvk of
        Inl err \<Rightarrow> Inl err
      | Inr client \<Rightarrow>
          (let informer = (case o_pruneTypes o' gvk of
                             Some i \<Rightarrow> i
                           | None \<Rightarrow> o_a_informers o' gvk)
           in case (informer, o_informerFactory o') of
                (None, Some factory_Get) \<Rightarrow>
                  (case factory_Get gvk of
                     Inl err \<Rightarrow>
                       Inl (Wrapf err ''failed to construct informer for %v for %s''
                              [G gvk, S debugID])
                   | Inr newInformer \<Rightarrow>
                       getControllerAndClient_strict o' debugID gvk newInformer client)
              | _ \<Rightarrow> getControllerAndClient_strict o' debugID gvk informer client))"

subsection \<open>Normalizer\<close>

text \<open>
  The three normalizing loops range over the map they change. The model visits the keys the
  map holds when the loop starts, each with the value the map holds when the key is reached,
  and skips a key that is gone by then; it stops at the first error, as the \<^verbatim>\<open>return err\<close>
  of the source does, with the map as far as it was changed. Go may visit an entry that the
  loop itself has inserted; the model does not.
\<close>

fun range_update ::
  "(ObjectKey \<Rightarrow> Object \<Rightarrow> ObjectByKey \<Rightarrow> error option \<times> ObjectByKey) \<Rightarrow> ObjectKey list
     \<Rightarrow> ObjectByKey \<Rightarrow> error option \<times> ObjectByKey" where
  "range_update f [] m = (None, m)"
| "range_update f (k # ks) m =
     (case DAList.lookup m k of
        None \<Rightarrow> range_update f ks m
      | Some v \<Rightarrow>
          (case f k v m of
             (Some err, m') \<Rightarrow> (Some err, m')
           | (None, m') \<Rightarrow> range_update f ks m'))"

text \<open>\<^verbatim>\<open>GroupVersion.String\<close> of apimachinery: the version alone when the group is empty.\<close>

definition GroupVersion_String :: "GroupVersionKind \<Rightarrow> string" where
  "GroupVersion_String gvk =
     (if length (Group gvk) > 0 then Group gvk @ ''/'' @ Version gvk else Version gvk)"

definition assignOwnerReference_body ::
  "('s, 'c) deps \<Rightarrow> 's desiredSet \<Rightarrow> GroupVersionKind \<Rightarrow> ObjectMeta \<Rightarrow> GroupVersionKind \<Rightarrow> bool
     \<Rightarrow> ObjectKey \<Rightarrow> Object \<Rightarrow> ObjectByKey \<Rightarrow> error option \<times> ObjectByKey" where
  "assignOwnerReference_body co o' gvk ownerMeta ownerGVK ownerNSed k v m =
     (case (if ownerNSed then clients_IsNamespaced co gvk else Inr True) of
        Inl err \<Rightarrow> (Some err, m)
      | Inr crossing \<Rightarrow>
          if ownerNSed \<and> \<not> crossing then (None, m)
          else
            (case clients_IsNamespaced co gvk of
               Inl err \<Rightarrow> (Some err, m)
             | Inr nsed \<Rightarrow>
                 (let assignNS = (nsed \<and> Namespace k = '''');
                      assignOwner =
                        (\<not> (nsed \<and> Namespace k \<noteq> ''''
                            \<and> Namespace k \<noteq> meta_Namespace ownerMeta \<and> ownerNSed))
                  in if \<not> assignOwner then (None, m)
                     else
                       (case Accessor v of
                          Inl err \<Rightarrow> (Some err, m)
                        | Inr meta \<Rightarrow>
                            (let meta1 = (if assignNS
                                          then meta\<lparr>meta_Namespace := meta_Namespace ownerMeta\<rparr>
                                          else meta);
                                 shouldSet =
                                   (meta_UID ownerMeta
                                      \<notin> set (map ref_UID (meta_OwnerReferences meta1)));
                                 meta2 =
                                   (if shouldSet
                                    then meta1\<lparr>meta_OwnerReferences :=
                                           meta_OwnerReferences meta1 @
                                           [\<lparr>ref_APIVersion = GroupVersion_String ownerGVK,
                                             ref_Kind = Kind ownerGVK,
                                             ref_Name = meta_Name ownerMeta,
                                             ref_UID = meta_UID ownerMeta,
                                             ref_Controller = o_ownerReferenceController o',
                                             ref_BlockOwnerDeletion = o_ownerReferenceBlock o'\<rparr>]\<rparr>
                                    else meta1);
                                 v' = Object (Some meta2) (body v);
                                 m1 = DAList.update k v' m
                             in if assignNS
                                then (None,
                                      DAList.update (k\<lparr>Namespace := meta_Namespace ownerMeta\<rparr>) v'
                                        (DAList.delete k m1))
                                else (None, m1))))))"

definition assignOwnerReference ::
  "('s, 'c) deps \<Rightarrow> 's desiredSet \<Rightarrow> GroupVersionKind \<Rightarrow> ObjectByKey
     \<Rightarrow> error option \<times> ObjectByKey" where
  "assignOwnerReference co o' gvk m =
     (case o_owner o' of
        None \<Rightarrow> (Some (Errorf ''no owner set to assign owner reference'' [] None), m)
      | Some own \<Rightarrow>
          (case Accessor own of
             Inl err \<Rightarrow> (Some err, m)
           | Inr ownerMeta \<Rightarrow>
               (case gvk_Get co own of
                  Inl err \<Rightarrow> (Some err, m)
                | Inr ownerGVK \<Rightarrow>
                    (case clients_IsNamespaced co ownerGVK of
                       Inl err \<Rightarrow> (Some err, m)
                     | Inr ownerNSed \<Rightarrow>
                         range_update
                           (assignOwnerReference_body co o' gvk ownerMeta ownerGVK ownerNSed)
                           (map fst (DAList.impl_of m)) m))))"

definition adjustNamespace_body ::
  "'s desiredSet \<Rightarrow> ObjectKey \<Rightarrow> Object \<Rightarrow> ObjectByKey \<Rightarrow> error option \<times> ObjectByKey" where
  "adjustNamespace_body o' k v m =
     (if Namespace k \<noteq> '''' then (None, m)
      else
        (case Accessor v of
           Inl err \<Rightarrow> (Some err, m)
         | Inr meta \<Rightarrow>
             (let v' = Object (Some (meta\<lparr>meta_Namespace := o_defaultNamespace o'\<rparr>)) (body v)
              in (None,
                  DAList.update (k\<lparr>Namespace := o_defaultNamespace o'\<rparr>) v'
                    (DAList.delete k m)))))"

definition adjustNamespace ::
  "'s desiredSet \<Rightarrow> GroupVersionKind \<Rightarrow> ObjectByKey \<Rightarrow> error option \<times> ObjectByKey" where
  "adjustNamespace o' gvk m =
     range_update (adjustNamespace_body o') (map fst (DAList.impl_of m)) m"

definition clearNamespace_body ::
  "ObjectKey \<Rightarrow> Object \<Rightarrow> ObjectByKey \<Rightarrow> error option \<times> ObjectByKey" where
  "clearNamespace_body k v m =
     (if Namespace k = '''' then (None, m)
      else
        (case Accessor v of
           Inl err \<Rightarrow> (Some err, m)
         | Inr meta \<Rightarrow>
             (let v' = Object (Some (meta\<lparr>meta_Namespace := ''''\<rparr>)) (body v)
              in (None, DAList.update (k\<lparr>Namespace := ''''\<rparr>) v' (DAList.delete k m)))))"

definition clearNamespace :: "'s desiredSet \<Rightarrow> ObjectByKey \<Rightarrow> error option \<times> ObjectByKey" where
  "clearNamespace o' m = range_update clearNamespace_body (map fst (DAList.impl_of m)) m"

definition createPatcher :: "('s, 'c) deps \<Rightarrow> 'c \<Rightarrow> 's Patcher" where
  "createPatcher co client =
     (\<lambda>namespace name pt data.
        if namespace \<noteq> '''' then client_Patch co client (Some namespace) name pt data
        else client_Patch co client None name pt data)"

subsection \<open>Cross-version filter\<close>

text \<open>Modelled from the spec: \<^verbatim>\<open>ObjectSet.Contains\<close>, declared in the \<^verbatim>\<open>objectset\<close> package.
  A candidate's "group+kind also exists in the overall multi-kind desired object collection";
  the call in the source passes a group and kind and a key, and no version.
\<close>

definition Contains :: "(GroupVersionKind \<times> ObjectKey) list \<Rightarrow> GroupKind \<Rightarrow> ObjectKey \<Rightarrow> bool" where
  "Contains collection gk key = ((gk, key) \<in> set (map (\<lambda>(g, k). (GroupKind_of g, k)) collection))"

definition filterCrossVersion_body ::
  "'s desiredSet \<Rightarrow> GroupKind \<Rightarrow> ObjectKey \<Rightarrow> ObjectKey list \<Rightarrow> ObjectKey list" where
  "filterCrossVersion_body o' gk key result =
     (if Contains (o_objs o') gk key then result
      else if Namespace key = o_defaultNamespace o'
              \<and> Contains (o_objs o') gk \<lparr>Namespace = '''', Name = Name key\<rparr>
           then result
           else result @ [key])"

definition filterCrossVersion ::
  "'s desiredSet \<Rightarrow> GroupVersionKind \<Rightarrow> ObjectKey list \<Rightarrow> ObjectKey list" where
  "filterCrossVersion o' gvk keys =
     (let gk = GroupKind_of gvk in fold (filterCrossVersion_body o' gk) keys [])"

subsection \<open>State Lister\<close>

definition addObjectToMap :: "ObjectByKey \<Rightarrow> Object \<Rightarrow> error option \<times> ObjectByKey" where
  "addObjectToMap m obj =
     (case Accessor obj of
        Inl err \<Rightarrow> (Some err, m)
      | Inr meta \<Rightarrow>
          (None, DAList.update \<lparr>Namespace = meta_Namespace meta, Name = meta_Name meta\<rparr> obj m))"

text \<open>
  The callback that \<^verbatim>\<open>list\<close> hands to the three listing functions; it works on the local
  variables \<^verbatim>\<open>objs\<close> and \<^verbatim>\<open>errs\<close>.
\<close>

definition list_appendFn :: "Object \<Rightarrow> ObjectByKey \<times> error list \<Rightarrow> ObjectByKey \<times> error list" where
  "list_appendFn obj acc =
     (case acc of (m, es) \<Rightarrow>
        (case addObjectToMap m obj of
           (Some err, m') \<Rightarrow> (m', es @ [err])
         | (None, m') \<Rightarrow> (m', es)))"

definition allNamespaceList ::
  "('s, 'c) deps \<Rightarrow> 'c \<Rightarrow> Selector \<Rightarrow> (Object \<Rightarrow> 'a \<Rightarrow> 'a) \<Rightarrow> 's \<Rightarrow> 'a \<Rightarrow> error option \<times> 'a" where
  "allNamespaceList co baseClient selector appendFn s acc =
     (case client_List co baseClient None selector s of
        Inl err \<Rightarrow> (Some err, acc)
      | Inr items \<Rightarrow> (None, fold appendFn items acc))"

text \<open>
  The source lists the namespaces concurrently and \<^verbatim>\<open>Wait\<close> returns the first error to
  occur. The model is the schedule in which the calls run one after the other in the order of
  \<^verbatim>\<open>namespaces\<close> and none is cancelled: the items of every namespace that answers are
  appended, and the error is that of the first namespace that fails.
\<close>

fun multiNamespaceList ::
  "('s, 'c) deps \<Rightarrow> string list \<Rightarrow> 'c \<Rightarrow> Selector \<Rightarrow> (Object \<Rightarrow> 'a \<Rightarrow> 'a) \<Rightarrow> 's \<Rightarrow> 'a
     \<Rightarrow> error option \<times> 'a" where
  "multiNamespaceList co [] baseClient selector appendFn s acc = (None, acc)"
| "multiNamespaceList co (namespace # rest) baseClient selector appendFn s acc =
     (case client_List co baseClient (Some namespace) selector s of
        Inl err \<Rightarrow>
          (case multiNamespaceList co rest baseClient selector appendFn s acc of
             (_, acc') \<Rightarrow> (Some err, acc'))
      | Inr items \<Rightarrow>
          multiNamespaceList co rest baseClient selector appendFn s (fold appendFn items acc))"

text \<open>Modelled from the spec: \<^verbatim>\<open>ObjectByKey.Namespaces\<close>, declared in the \<^verbatim>\<open>objectset\<close>
  package: "the namespaces appearing in the desired object set", each once.
\<close>

definition Namespaces :: "ObjectByKey \<Rightarrow> string list" where
  "Namespaces m = remdups (map (\<lambda>(k, _). Namespace k) (DAList.impl_of m))"

definition list_result :: "error option \<times> ObjectByKey \<times> error list \<Rightarrow> ObjectByKey \<times> error option" where
  "list_result r =
     (case r of (err, m, es) \<Rightarrow>
        (case err of
           Some e \<Rightarrow> (m, NewErrors (es @ [e]))
         | None \<Rightarrow> (m, NewErrors es)))"

definition list ::
  "('s, 'c) deps \<Rightarrow> 's desiredSet \<Rightarrow> bool \<Rightarrow> Informer option \<Rightarrow> 'c \<Rightarrow> Selector \<Rightarrow> ObjectByKey
     \<Rightarrow> 's \<Rightarrow> ObjectByKey \<times> error option" where
  "list co o' namespaced informer client selector desiredObjects s =
     (case informer of
        None \<Rightarrow>
          (let namespaces = (if o_listerNamespace o' \<noteq> '''' then [] @ [o_listerNamespace o']
                             else Namespaces desiredObjects)
           in if o_owner o' \<noteq> None \<and> o_listerNamespace o' = ''''
              then list_result
                     (allNamespaceList co client selector list_appendFn s (DAList.empty, []))
              else list_result
                     (multiNamespaceList co namespaces client selector list_appendFn s
                        (DAList.empty, [])))
      | Some cache \<Rightarrow>
          (let namespace = (if namespaced then o_listerNamespace o' else '''')
           in case cache namespace selector of
                (items, err) \<Rightarrow> list_result (err, fold list_appendFn items (DAList.empty, []))))"

subsection \<open>Execution Pipeline\<close>

text \<open>
  The recording patcher of plan mode (the closure of lines 270 to 279): it writes to the plan
  and to nothing else.
\<close>

definition planPatcher :: "('s, 'c) deps \<Rightarrow> GroupVersionKind \<Rightarrow> 's state Patcher" where
  "planPatcher co gvk =
     (\<lambda>namespace name pt data st.
        case sanitizePatch co data True of
          Inl err \<Rightarrow> ((None, Some err), st)
        | Inr data' \<Rightarrow>
            ((None, None),
             if data' \<noteq> ''{}''
             then st\<lparr>st_plan := Update_Add gvk namespace name data' (st_plan st)\<rparr>
             else st))"

text \<open>
  The local variables that the closure \<^verbatim>\<open>createF\<close> assigns, \<^verbatim>\<open>toUpdate\<close> and \<^verbatim>\<open>existing\<close>,
  travel with the state through the create phase.
\<close>

record 's phase =
  ph_state :: "'s state"
  ph_toUpdate :: "ObjectKey list"
  ph_existing :: ObjectByKey

definition createF ::
  "('s, 'c) deps \<Rightarrow> string \<Rightarrow> GroupVersionKind \<Rightarrow> bool \<Rightarrow> 'c \<Rightarrow> ObjectByKey \<Rightarrow> ObjectKey
     \<Rightarrow> 's phase \<Rightarrow> 's phase" where
  "createF co debugID gvk nsed client desired k ph =
     (case prepareObjectForCreate co gvk (DAList.lookup desired k) of
        Inl err \<Rightarrow>
          ph\<lparr>ph_state :=
               o_err (Wrapf err ''failed to prepare create %s %s for %s'' [K k, G gvk, S debugID])
                 (ph_state ph)\<rparr>
      | Inr obj \<Rightarrow>
          (case on_store (do_create co nsed (Namespace k) client obj) (ph_state ph) of
             (err, st1) \<Rightarrow>
               (case (if IsAlreadyExists err
                      then (case do_get co nsed (Namespace k) (Name k) client (st_store st1) of
                              Inr existingObj \<Rightarrow> Some existingObj
                            | Inl _ \<Rightarrow> None)
                      else None) of
                  Some existingObj \<Rightarrow>
                    ph\<lparr>ph_state := st1,
                       ph_toUpdate := ph_toUpdate ph @ [k],
                       ph_existing := DAList.update k existingObj (ph_existing ph)\<rparr>
                | None \<Rightarrow>
                    (case err of
                       Some e \<Rightarrow>
                         ph\<lparr>ph_state :=
                              o_err (Wrapf e ''failed to create %s %s for %s''
                                       [K k, G gvk, S debugID]) st1\<rparr>
                     | None \<Rightarrow> ph\<lparr>ph_state := st1\<rparr>))))"

definition deleteF ::
  "('s, 'c) deps \<Rightarrow> string \<Rightarrow> GroupVersionKind \<Rightarrow> bool \<Rightarrow> 'c \<Rightarrow> ObjectKey \<Rightarrow> bool
     \<Rightarrow> 's state \<Rightarrow> 's state" where
  "deleteF co debugID gvk nsed client k force st =
     (case on_store (do_delete co nsed (Namespace k) (Name k) client force gvk) st of
        (Some err, st1) \<Rightarrow>
          o_err (Wrapf err ''failed to delete %s %s for %s'' [K k, G gvk, S debugID]) st1
      | (None, st1) \<Rightarrow> st1)"

definition updateF ::
  "('s, 'c) deps \<Rightarrow> string \<Rightarrow> GroupVersionKind \<Rightarrow> bool \<Rightarrow> 'c \<Rightarrow> 's state Reconciler option
     \<Rightarrow> 's state Patcher \<Rightarrow> ObjectByKey \<Rightarrow> ObjectByKey \<Rightarrow> ObjectKey list \<Rightarrow> ObjectKey list
     \<Rightarrow> ObjectKey \<Rightarrow> 's state \<Rightarrow> 's state" where
  "updateF co debugID gvk nsed client reconciler patcher desired existing toCreate toDelete k st =
     (case compareObjects co gvk reconciler patcher client debugID
             (DAList.lookup existing k) (DAList.lookup desired k)
             (length toCreate > 0 \<or> length toDelete > 0) st of
        (err, st1) \<Rightarrow>
          if err = Some ErrReplace
          then o_err (Errorf ''DesiredSet - Replace Wait %s %s for %s'' [G gvk, K k, S debugID] None)
                 (deleteF co debugID gvk nsed client k True st1)
          else (case err of
                  Some e \<Rightarrow>
                    o_err (Wrapf e ''failed to update %s %s for %s'' [K k, G gvk, S debugID]) st1
                | None \<Rightarrow> st1))"

text \<open>The three loops at the end of \<^verbatim>\<open>process\<close>: all creates, then all updates, then all deletes.\<close>

definition process_phases ::
  "('s, 'c) deps \<Rightarrow> string \<Rightarrow> GroupVersionKind \<Rightarrow> bool \<Rightarrow> 'c \<Rightarrow> 's state Reconciler option
     \<Rightarrow> 's state Patcher \<Rightarrow> ObjectByKey \<Rightarrow> ObjectKey list \<Rightarrow> ObjectKey list \<Rightarrow> 's phase
     \<Rightarrow> 's state" where
  "process_phases co debugID gvk nsed client reconciler patcher desired toCreate toDelete ph =
     (let ph1 = fold (createF co debugID gvk nsed client desired) toCreate ph;
          st2 = fold (updateF co debugID gvk nsed client reconciler patcher desired
                        (ph_existing ph1) toCreate toDelete)
                  (ph_toUpdate ph1) (ph_state ph1)
      in fold (\<lambda>k. deleteF co debugID gvk nsed client k False) toDelete st2)"

subsection \<open>Orchestrator\<close>

text \<open>
  Lines 260 to 339 of \<^verbatim>\<open>process\<close>: what is done with the listed state. The patcher and the
  reconciler of the caller act on the store; the recording patcher of plan mode acts on the
  plan.
\<close>

definition process_diff ::
  "('s, 'c) deps \<Rightarrow> 's desiredSet \<Rightarrow> string \<Rightarrow> GroupVersionKind \<Rightarrow> bool \<Rightarrow> 'c
     \<Rightarrow> 's Reconciler option \<Rightarrow> 's Patcher \<Rightarrow> ObjectByKey \<Rightarrow> ObjectByKey
     \<Rightarrow> 's state \<Rightarrow> 's state" where
  "process_diff co o' debugID gvk nsed client reconciler patcher desired existing st =
     (case compareSets existing desired of
        (toCreate, toDelete0, toUpdate) \<Rightarrow>
          (let toDelete = filterCrossVersion o' gvk toDelete0
           in if o_createPlan o'
              then process_phases co debugID gvk nsed client None (planPatcher co gvk) desired [] []
                     \<lparr>ph_state =
                        st\<lparr>st_plan := (st_plan st)
                             \<lparr>plan_Create := (plan_Create (st_plan st))(gvk \<mapsto> toCreate),
                              plan_Delete := (plan_Delete (st_plan st))(gvk \<mapsto> toDelete)\<rparr>\<rparr>,
                      ph_toUpdate = toUpdate,
                      ph_existing = existing\<rparr>
              else process_phases co debugID gvk nsed client
                     (map_option on_store_reconciler reconciler) (on_store_patcher patcher)
                     desired toCreate toDelete
                     \<lparr>ph_state = st, ph_toUpdate = toUpdate, ph_existing = existing\<rparr>))"

text \<open>Lines 247 to 258: the patcher and reconciler of the kind, and the listing.\<close>

definition process_reconcile ::
  "('s, 'c) deps \<Rightarrow> 's desiredSet \<Rightarrow> string \<Rightarrow> Selector \<Rightarrow> GroupVersionKind \<Rightarrow> bool
     \<Rightarrow> Informer option \<Rightarrow> 'c \<Rightarrow> ObjectByKey \<Rightarrow> 's state \<Rightarrow> 's state" where
  "process_reconcile co o' debugID sel gvk nsed controller client desired st =
     (let patcher = (case o_patchers o' gvk of
                       Some p \<Rightarrow> p
                     | None \<Rightarrow> createPatcher co client);
          reconciler = o_reconcilers o' gvk
      in case list co o' nsed controller client sel desired (st_store st) of
           (existing, Some err) \<Rightarrow>
             o_err (Wrapf err ''failed to list %s for %s'' [G gvk, S debugID]) st
         | (existing, None) \<Rightarrow>
             process_diff co o' debugID gvk nsed client reconciler patcher desired existing st)"

text \<open>
  Lines 211 to 245: client and scope of the kind, and the normalized desired set; an error
  ends the call.
\<close>

definition process_prepare ::
  "('s, 'c) deps \<Rightarrow> 's desiredSet \<Rightarrow> string \<Rightarrow> GroupVersionKind \<Rightarrow> ObjectByKey
     \<Rightarrow> error + (bool \<times> Informer option \<times> 'c \<times> ObjectByKey)" where
  "process_prepare co o' debugID gvk desired =
     (case getControllerAndClient co o' debugID gvk of
        Inl err \<Rightarrow> Inl err
      | Inr (controller, client) \<Rightarrow>
          (case clients_IsNamespaced co gvk of
             Inl err \<Rightarrow> Inl err
           | Inr nsed \<Rightarrow>
               if \<not> nsed \<and> o_restrictClusterScoped o'
               then Inl (Errorf ''invalid cluster scoped gvk: %v'' [G gvk] None)
               else
                 (case (if o_setOwnerReference o' \<and> o_owner o' \<noteq> None
                        then assignOwnerReference co o' gvk desired
                        else (None, desired)) of
                    (Some err, _) \<Rightarrow> Inl err
                  | (None, desired1) \<Rightarrow>
                      (case (if nsed then adjustNamespace o' gvk desired1
                             else clearNamespace o' desired1) of
                         (Some err, _) \<Rightarrow> Inl err
                       | (None, desired2) \<Rightarrow> Inr (nsed, controller, client, desired2)))))"

definition process ::
  "('s, 'c) deps \<Rightarrow> 's desiredSet \<Rightarrow> string \<Rightarrow> Selector \<Rightarrow> GroupVersionKind \<Rightarrow> ObjectByKey
     \<Rightarrow> 's state \<Rightarrow> 's state" where
  "process co o' debugID sel gvk desired st =
     (case process_prepare co o' debugID gvk desired of
        Inl err \<Rightarrow> o_err err st
      | Inr (nsed, controller, client, desired') \<Rightarrow>
          process_reconcile co o' debugID sel gvk nsed controller client desired' st)"

text \<open>Modelled from the spec: the method \<^verbatim>\<open>o.compareObjects\<close>, declared in another file of
  the package. The comparison step computes the patch body for the existing and the desired
  object; a reconciler, when there is one, is "invoked during update to decide whether a patch
  suffices or whether a full replace is required", and the patcher "applies (or, in plan mode,
  records)" the update; the step returns what they return, the replace sentinel included. Its
  own computation is the parameter \<open>diff\<close>: a failure of its own, no difference, or the
  namespace, name, patch type and body for the patcher.
\<close>

definition compareObjects_spec ::
  "(GroupVersionKind \<Rightarrow> Object option \<Rightarrow> Object option \<Rightarrow> bool
      \<Rightarrow> error + (string \<times> string \<times> PatchType \<times> bytes) option)
     \<Rightarrow> GroupVersionKind \<Rightarrow> 'w Reconciler option \<Rightarrow> 'w Patcher \<Rightarrow> 'c \<Rightarrow> string
     \<Rightarrow> Object option \<Rightarrow> Object option \<Rightarrow> bool \<Rightarrow> 'w \<Rightarrow> error option \<times> 'w" where
  "compareObjects_spec diff gvk reconciler patcher client debugID oldObject newObject force w =
     (case diff gvk oldObject newObject force of
        Inl err \<Rightarrow> (Some err, w)
      | Inr None \<Rightarrow> (None, w)
      | Inr (Some (namespace, name, pt, data)) \<Rightarrow>
          (case (case reconciler of
                   None \<Rightarrow> ((False, None), w)
                 | Some r \<Rightarrow> r oldObject newObject w) of
             ((_, Some err), w1) \<Rightarrow> (Some err, w1)
           | ((True, None), w1) \<Rightarrow> (None, w1)
           | ((False, None), w1) \<Rightarrow>
               (case patcher namespace name pt data w1 of
                  ((_, err), w2) \<Rightarrow> (err, w2))))"

section \<open>The claims in the words of the spec, and inputs to run the code on\<close>

text \<open>
  The cross-version filter as the spec words it: a candidate is removed when its group and
  kind are in the overall collection with its key "under a different version", or when it
  lies in the default namespace and its name is in the collection with no namespace.
\<close>

definition filterCrossVersion_spec ::
  "'s desiredSet \<Rightarrow> GroupVersionKind \<Rightarrow> ObjectKey list \<Rightarrow> ObjectKey list" where
  "filterCrossVersion_spec o' gvk keys =
     filter
       (\<lambda>key. \<not> (Contains (filter (\<lambda>(g, k). Version g \<noteq> Version gvk) (o_objs o'))
                     (GroupKind_of gvk) key
                 \<or> (Namespace key = o_defaultNamespace o'
                    \<and> Contains (o_objs o') (GroupKind_of gvk)
                         \<lparr>Namespace = '''', Name = Name key\<rparr>)))
       keys"

definition key_a :: ObjectKey where
  "key_a = \<lparr>Namespace = ''ns1'', Name = ''a''\<rparr>"

definition key_b :: ObjectKey where
  "key_b = \<lparr>Namespace = ''ns1'', Name = ''b''\<rparr>"

definition key_c :: ObjectKey where
  "key_c = \<lparr>Namespace = ''ns1'', Name = ''c''\<rparr>"

definition key_z :: ObjectKey where
  "key_z = \<lparr>Namespace = ''ns2'', Name = ''z''\<rparr>"

definition object_of :: "ObjectKey \<Rightarrow> (string \<times> string) list \<Rightarrow> Object" where
  "object_of k labels =
     Object (Some \<lparr>meta_Namespace = Namespace k, meta_Name = Name k, meta_UID = [],
                   meta_Labels = labels, meta_OwnerReferences = []\<rparr>) []"

definition opaque_object :: Object where
  "opaque_object = Object None ''not a metav1.Object''"

definition deployments_v1 :: GroupVersionKind where
  "deployments_v1 = \<lparr>Group = ''apps'', Version = ''v1'', Kind = ''Deployment''\<rparr>"

text \<open>A store that records the calls made to it, in order.\<close>

datatype call =
    Created string Object
  | Deleted string string bool
  | Patched "string option" string bytes

definition recording_deps :: "(call list, unit) deps" where
  "recording_deps =
     \<lparr>clients_client = (\<lambda>gvk. Inr ()),
      clients_IsNamespaced = (\<lambda>gvk. Inr True),
      gvk_Get = (\<lambda>obj. Inl (ErrOther ''no kind'')),
      do_create = (\<lambda>nsed namespace client obj s. (None, s @ [Created namespace obj])),
      do_get = (\<lambda>nsed namespace name client s. Inl (StatusError NotFound)),
      do_delete = (\<lambda>nsed namespace name client force gvk s.
                     (None, s @ [Deleted namespace name force])),
      client_Patch = (\<lambda>client scope name pt data s.
                        ((None, None), s @ [Patched scope name data])),
      client_List = (\<lambda>client scope selector s. Inr []),
      prepareObjectForCreate = (\<lambda>gvk obj. case obj of
                                            None \<Rightarrow> Inl (ErrOther ''nil object'')
                                          | Some ob \<Rightarrow> Inr ob),
      sanitizePatch = (\<lambda>data forPlan. Inr data),
      compareObjects = compareObjects_spec (\<lambda>gvk old new force. Inr None)\<rparr>"

definition plain_set :: "call list desiredSet" where
  "plain_set =
     \<lparr>o_pruneTypes = (\<lambda>gvk. None),
      o_a_informers = (\<lambda>gvk. None),
      o_informerFactory = None,
      o_strictCaching = False,
      o_owner = None,
      o_ownerReferenceController = False,
      o_ownerReferenceBlock = False,
      o_defaultNamespace = ''default'',
      o_listerNamespace = '''',
      o_objs = [],
      o_restrictClusterScoped = False,
      o_setOwnerReference = False,
      o_createPlan = False,
      o_patchers = (\<lambda>gvk. None),
      o_reconcilers = (\<lambda>gvk. None)\<rparr>"

definition empty_plan :: Plan where
  "empty_plan = \<lparr>plan_Create = Map.empty, plan_Delete = Map.empty, plan_Update = []\<rparr>"

definition fresh_state :: "call list state" where
  "fresh_state = \<lparr>st_store = [], st_errs = [], st_plan = empty_plan\<rparr>"

text \<open>
  What plan mode records for one key of the update list when the comparison step is
  \<^const>\<open>compareObjects_spec\<close>: the sanitized body, unless it is the no-op \<^verbatim>\<open>{}\<close>.
\<close>

definition plan_record ::
  "('s, 'c) deps
     \<Rightarrow> (GroupVersionKind \<Rightarrow> Object option \<Rightarrow> Object option \<Rightarrow> bool
          \<Rightarrow> error + (string \<times> string \<times> PatchType \<times> bytes) option)
     \<Rightarrow> GroupVersionKind \<Rightarrow> ObjectByKey \<Rightarrow> ObjectByKey \<Rightarrow> ObjectKey
     \<Rightarrow> (GroupVersionKind \<times> string \<times> string \<times> string) list" where
  "plan_record co diff gvk desired existing k =
     (case diff gvk (DAList.lookup existing k) (DAList.lookup desired k) False of
        Inr (Some (namespace, name, pt, data)) \<Rightarrow>
          (case sanitizePatch co data True of
             Inr data' \<Rightarrow> (if data' \<noteq> ''{}'' then [(gvk, namespace, name, data')] else [])
           | Inl err \<Rightarrow> [])
      | _ \<Rightarrow> [])"

text \<open>A store where the slot of every create is taken and the object in it can be read.\<close>

definition occupied_deps :: "(call list, unit) deps" where
  "occupied_deps =
     recording_deps
       \<lparr>do_create := (\<lambda>nsed namespace client obj s. (Some (StatusError AlreadyExists), s)),
        do_get := (\<lambda>nsed namespace name client s.
                     Inr (object_of \<lparr>Namespace = namespace, Name = name\<rparr> [(''found'', ''yes'')]))\<rparr>"

text \<open>The same store when the object in the slot cannot be read.\<close>

definition unreadable_deps :: "(call list, unit) deps" where
  "unreadable_deps =
     recording_deps
       \<lparr>do_create := (\<lambda>nsed namespace client obj s. (Some (StatusError AlreadyExists), s)),
        do_get := (\<lambda>nsed namespace name client s. Inl (ErrOther ''get refused''))\<rparr>"

text \<open>A comparison step that always has a patch, and a reconciler that asks for a replace.\<close>

definition patching_deps :: "(call list, unit) deps" where
  "patching_deps =
     recording_deps
       \<lparr>compareObjects :=
          compareObjects_spec
            (\<lambda>gvk old new force. Inr (Some (''ns1'', ''b'', ''merge'', ''{replicas}'')))\<rparr>"

definition replace_reconciler :: "'s Reconciler" where
  "replace_reconciler = (\<lambda>old new s. ((False, Some ErrReplace), s))"

text \<open>A store that answers for \<^verbatim>\<open>ns1\<close> with the object \<^verbatim>\<open>ns1/b\<close> and fails for \<^verbatim>\<open>ns2\<close>.\<close>

definition half_listed_deps :: "(call list, unit) deps" where
  "half_listed_deps =
     recording_deps
       \<lparr>client_List := (\<lambda>client scope selector s.
                          if scope = Some ''ns2'' then Inl (ErrOther ''ns2 unavailable'')
                          else Inr [object_of key_b []])\<rparr>"

definition set_a_z :: "call list desiredSet" where
  "set_a_z = plain_set\<lparr>o_objs := [(deployments_v1, key_a), (deployments_v1, key_z)]\<rparr>"

definition desired_a_z :: ObjectByKey where
  "desired_a_z =
     DAList.update key_z (object_of key_z []) (DAList.update key_a (object_of key_a []) DAList.empty)"

text \<open>A store that holds \<^verbatim>\<open>ns1/a\<close> and \<^verbatim>\<open>ns1/c\<close> under the selector of the run.\<close>

definition leftover_deps :: "(call list, unit) deps" where
  "leftover_deps =
     recording_deps
       \<lparr>client_List := (\<lambda>client scope selector s. Inr [object_of key_a [], object_of key_c []])\<rparr>"

definition set_a :: "call list desiredSet" where
  "set_a = plain_set\<lparr>o_objs := [(deployments_v1, key_a)]\<rparr>"

definition desired_a :: ObjectByKey where
  "desired_a = DAList.update key_a (object_of key_a []) DAList.empty"

text \<open>A plan-mode run: the store holds \<^verbatim>\<open>ns1/b\<close> and \<^verbatim>\<open>ns1/c\<close>, the desired set \<^verbatim>\<open>ns1/a\<close> and \<^verbatim>\<open>ns1/b\<close>.\<close>

definition patching_diff ::
  "GroupVersionKind \<Rightarrow> Object option \<Rightarrow> Object option \<Rightarrow> bool
     \<Rightarrow> error + (string \<times> string \<times> PatchType \<times> bytes) option" where
  "patching_diff gvk old new force = Inr (Some (''ns1'', ''b'', ''merge'', ''{replicas}''))"

definition planning_deps :: "(call list, unit) deps" where
  "planning_deps =
     recording_deps
       \<lparr>client_List := (\<lambda>client scope selector s. Inr [object_of key_b [], object_of key_c []]),
        compareObjects := compareObjects_spec patching_diff\<rparr>"

definition planning_set :: "call list desiredSet" where
  "planning_set =
     plain_set\<lparr>o_createPlan := True,
               o_objs := [(deployments_v1, key_a), (deployments_v1, key_b)]\<rparr>"

definition desired_a_b :: ObjectByKey where
  "desired_a_b =
     DAList.update key_b (object_of key_b []) (DAList.update key_a (object_of key_a []) DAList.empty)"

section \<open>Properties of the Set Differ\<close>

lemma fold_compareSets_new:
  "fold (compareSets_new ex) es (c, u) =
     (c @ filter (\<lambda>k. DAList.lookup ex k = None) (map fst es),
      u @ filter (\<lambda>k. DAList.lookup ex k \<noteq> None) (map fst es))"
  by (induction es arbitrary: c u) (auto simp: compareSets_new_def split: option.splits)

lemma compareSets_existing_step:
  "compareSets_existing new (k, obj) d =
     (if DAList.lookup new k = None \<and> shouldPrune obj then d @ [k] else d)"
  by (simp add: compareSets_existing_def split: option.splits)

lemma fold_compareSets_existing:
  "fold (compareSets_existing new) es d =
     d @ map fst (filter (\<lambda>(k, obj). DAList.lookup new k = None \<and> shouldPrune obj) es)"
proof (induction es arbitrary: d)
  case Nil
  show ?case by simp
next
  case (Cons e es)
  obtain k obj where e: "e = (k, obj)" by (cases e)
  show ?case
    by (simp add: Cons.IH e compareSets_existing_step)
qed

lemma toCreate_compareSets:
  "toCreate_of (compareSets ex new) =
     sortObjectKeys (filter (\<lambda>k. DAList.lookup ex k = None) (map fst (DAList.impl_of new)))"
  by (simp add: compareSets_def toCreate_of_def fold_compareSets_new)

lemma toUpdate_compareSets:
  "toUpdate_of (compareSets ex new) =
     sortObjectKeys (filter (\<lambda>k. DAList.lookup ex k \<noteq> None) (map fst (DAList.impl_of new)))"
  by (simp add: compareSets_def toUpdate_of_def fold_compareSets_new)

lemma toDelete_compareSets:
  "toDelete_of (compareSets ex new) =
     sortObjectKeys (map fst (filter (\<lambda>(k, obj). DAList.lookup new k = None \<and> shouldPrune obj)
       (DAList.impl_of ex)))"
  by (simp add: compareSets_def toDelete_of_def fold_compareSets_new fold_compareSets_existing)

lemma set_sortObjectKeys: "set (sortObjectKeys ks) = set ks"
  by (simp add: sortObjectKeys_def)

lemma distinct_sortObjectKeys: "distinct (sortObjectKeys ks) = distinct ks"
  by (simp add: sortObjectKeys_def)

lemma sorted_sortObjectKeys: "sorted (map ObjectKey_String (sortObjectKeys ks))"
  by (simp add: sortObjectKeys_def)

lemma lookup_dom: "(k \<in> fst ` set (DAList.impl_of m)) = (DAList.lookup m k \<noteq> None)"
  by (simp add: DAList.lookup.rep_eq map_of_eq_None_iff)

lemma keys_impl_of: "set (map fst (DAList.impl_of m)) = {k. DAList.lookup m k \<noteq> None}"
proof -
  have "\<And>k. (k \<in> fst ` set (DAList.impl_of m)) = (DAList.lookup m k \<noteq> None)"
    by (rule lookup_dom)
  then show ?thesis by (simp only: set_map) blast
qed

lemma lookup_entry: "((k, obj) \<in> set (DAList.impl_of m)) = (DAList.lookup m k = Some obj)"
  using DAList.impl_of_distinct [of m] by (auto simp: DAList.lookup.rep_eq)

lemma set_toCreate:
  "set (toCreate_of (compareSets ex new)) =
     {k. DAList.lookup new k \<noteq> None \<and> DAList.lookup ex k = None}"
proof -
  have "set (map fst (DAList.impl_of new)) = {k. DAList.lookup new k \<noteq> None}"
    by (rule keys_impl_of)
  then show ?thesis
    by (auto simp: toCreate_compareSets set_sortObjectKeys simp del: set_map)
qed

lemma set_toUpdate:
  "set (toUpdate_of (compareSets ex new)) =
     {k. DAList.lookup new k \<noteq> None \<and> DAList.lookup ex k \<noteq> None}"
proof -
  have "set (map fst (DAList.impl_of new)) = {k. DAList.lookup new k \<noteq> None}"
    by (rule keys_impl_of)
  then show ?thesis
    by (auto simp: toUpdate_compareSets set_sortObjectKeys simp del: set_map)
qed

lemma set_toDelete:
  "set (toDelete_of (compareSets ex new)) =
     {k. \<exists>obj. DAList.lookup ex k = Some obj \<and> DAList.lookup new k = None \<and> shouldPrune obj}"
  by (auto simp: toDelete_compareSets set_sortObjectKeys lookup_entry image_iff)

lemma distinct_keys_filter: "distinct (map fst (filter P (DAList.impl_of m)))"
  by (simp add: distinct_map_filter)

lemma distinct_toCreate: "distinct (toCreate_of (compareSets ex new))"
  by (simp add: toCreate_compareSets distinct_sortObjectKeys)

lemma distinct_toUpdate: "distinct (toUpdate_of (compareSets ex new))"
  by (simp add: toUpdate_compareSets distinct_sortObjectKeys)

lemma distinct_toDelete: "distinct (toDelete_of (compareSets ex new))"
  by (simp add: toDelete_compareSets distinct_sortObjectKeys distinct_keys_filter)

lemmas alist_eval =
  DAList.lookup.rep_eq DAList.update.rep_eq DAList.empty.rep_eq DAList.delete.rep_eq

lemmas differ_eval =
  compareSets_def compareSets_new_def compareSets_existing_def sortObjectKeys_def
  ObjectKey_String_def shouldPrune_def Accessor_def GetLabel_def LabelPrune_def
  toCreate_of_def toDelete_of_def toUpdate_of_def

lemmas example_keys = key_a_def key_b_def key_c_def key_z_def object_of_def opaque_object_def

text \<open>
  C4, as the claim states it: every existing key that is absent from the desired set goes to
  the delete output. An existing object labelled \<^verbatim>\<open>prune=false\<close> and absent from the desired
  set is in none of the three outputs.
\<close>

theorem compareSets_unpruned_key_in_no_output:
  "DAList.lookup (DAList.update key_c (object_of key_c [(LabelPrune, ''false'')]) DAList.empty) key_c
     = Some (object_of key_c [(LabelPrune, ''false'')])
   \<and> DAList.lookup DAList.empty key_c = (None :: Object option)
   \<and> compareSets (DAList.update key_c (object_of key_c [(LabelPrune, ''false'')]) DAList.empty)
       DAList.empty = ([], [], [])"
  by (simp add: differ_eval alist_eval example_keys)

text \<open>
  C4, amended: a desired key present in existing is in update, a desired key absent from
  existing is in create, and an existing key absent from desired is in delete exactly when
  its object is prune-eligible (otherwise in no output); no key is in two outputs or twice in
  one; and each output is sorted by the string form of its keys.
\<close>

theorem compareSets_partition_sorted:
  "set (toUpdate_of (compareSets ex new))
     = {k. DAList.lookup new k \<noteq> None \<and> DAList.lookup ex k \<noteq> None}
   \<and> set (toCreate_of (compareSets ex new))
     = {k. DAList.lookup new k \<noteq> None \<and> DAList.lookup ex k = None}
   \<and> set (toDelete_of (compareSets ex new))
     = {k. \<exists>obj. DAList.lookup ex k = Some obj \<and> DAList.lookup new k = None \<and> shouldPrune obj}
   \<and> distinct (toCreate_of (compareSets ex new))
   \<and> distinct (toUpdate_of (compareSets ex new))
   \<and> distinct (toDelete_of (compareSets ex new))
   \<and> set (toCreate_of (compareSets ex new)) \<inter> set (toUpdate_of (compareSets ex new)) = {}
   \<and> set (toCreate_of (compareSets ex new)) \<inter> set (toDelete_of (compareSets ex new)) = {}
   \<and> set (toUpdate_of (compareSets ex new)) \<inter> set (toDelete_of (compareSets ex new)) = {}
   \<and> sorted (map ObjectKey_String (toCreate_of (compareSets ex new)))
   \<and> sorted (map ObjectKey_String (toUpdate_of (compareSets ex new)))
   \<and> sorted (map ObjectKey_String (toDelete_of (compareSets ex new)))"
proof -
  have disj1: "set (toCreate_of (compareSets ex new)) \<inter> set (toUpdate_of (compareSets ex new)) = {}"
    unfolding set_toCreate set_toUpdate by auto
  have disj2: "set (toCreate_of (compareSets ex new)) \<inter> set (toDelete_of (compareSets ex new)) = {}"
    unfolding set_toCreate set_toDelete by auto
  have disj3: "set (toUpdate_of (compareSets ex new)) \<inter> set (toDelete_of (compareSets ex new)) = {}"
    unfolding set_toUpdate set_toDelete by auto
  have srt: "sorted (map ObjectKey_String (toCreate_of (compareSets ex new)))"
    "sorted (map ObjectKey_String (toUpdate_of (compareSets ex new)))"
    "sorted (map ObjectKey_String (toDelete_of (compareSets ex new)))"
    by (simp_all only: toCreate_compareSets toUpdate_compareSets toDelete_compareSets
          sorted_sortObjectKeys)
  show ?thesis
    using set_toUpdate [of ex new] set_toCreate [of ex new] set_toDelete [of ex new]
      distinct_toCreate [of ex new] distinct_toUpdate [of ex new] distinct_toDelete [of ex new]
      disj1 disj2 disj3 srt
    by (intro conjI)
qed

text \<open>
  C5: an existing object whose key is absent from the desired set has its key in the delete
  output if and only if it lacks a prune-disabling label, that is, unless its metadata can be
  read and holds the prune label with the value \<^verbatim>\<open>false\<close>.
\<close>

theorem compareSets_delete_iff_not_prune_disabled:
  assumes "DAList.lookup ex k = Some obj"
    and "DAList.lookup new k = None"
  shows "(k \<in> set (toDelete_of (compareSets ex new)))
           = (\<not> (\<exists>meta. metadata obj = Some meta
                    \<and> map_of (meta_Labels meta) LabelPrune = Some ''false''))"
proof -
  have "(k \<in> set (toDelete_of (compareSets ex new))) = shouldPrune obj"
    using assms by (simp add: set_toDelete)
  also have "shouldPrune obj
               = (\<not> (\<exists>meta. metadata obj = Some meta
                        \<and> map_of (meta_Labels meta) LabelPrune = Some ''false''))"
    by (cases "metadata obj")
       (auto simp: shouldPrune_def Accessor_def GetLabel_def split: option.splits)
  finally show ?thesis .
qed

theorem compareSets_delete_iff_not_prune_disabled_witness:
  "DAList.lookup (DAList.update key_b (object_of key_b [(LabelPrune, ''false'')])
       (DAList.update key_c (object_of key_c [(LabelPrune, ''true'')]) DAList.empty)) key_c
     = Some (object_of key_c [(LabelPrune, ''true'')])
   \<and> DAList.lookup (DAList.update key_a (object_of key_a []) DAList.empty) key_c = None
   \<and> key_c \<in> set (toDelete_of (compareSets
        (DAList.update key_b (object_of key_b [(LabelPrune, ''false'')])
           (DAList.update key_c (object_of key_c [(LabelPrune, ''true'')]) DAList.empty))
        (DAList.update key_a (object_of key_a []) DAList.empty)))"
proof -
  have ex: "DAList.lookup (DAList.update key_b (object_of key_b [(LabelPrune, ''false'')])
       (DAList.update key_c (object_of key_c [(LabelPrune, ''true'')]) DAList.empty)) key_c
     = Some (object_of key_c [(LabelPrune, ''true'')])"
    by (simp add: DAList.lookup_update example_keys)
  have new: "DAList.lookup (DAList.update key_a (object_of key_a []) DAList.empty) key_c = None"
    by (simp add: DAList.lookup_update example_keys)
  show ?thesis
    using compareSets_delete_iff_not_prune_disabled [OF ex new] ex new
    by (simp add: object_of_def LabelPrune_def)
qed

text \<open>
  C10: \<^verbatim>\<open>shouldPrune\<close> is true whenever the accessor returns an error, so an existing object
  with inaccessible metadata whose key is absent from the desired set is a delete candidate.
\<close>

theorem shouldPrune_inaccessible_metadata:
  assumes "Accessor obj = Inl err"
  shows "shouldPrune obj
         \<and> {k. DAList.lookup ex k = Some obj \<and> DAList.lookup new k = None}
             \<subseteq> set (toDelete_of (compareSets ex new))"
proof -
  have "shouldPrune obj"
    using assms by (simp add: shouldPrune_def)
  then show ?thesis
    by (auto simp: set_toDelete)
qed

theorem shouldPrune_inaccessible_metadata_witness:
  "Accessor opaque_object = Inl ErrNoAccessor
   \<and> shouldPrune opaque_object
   \<and> key_c \<in> set (toDelete_of (compareSets (DAList.update key_c opaque_object DAList.empty)
                                   (DAList.update key_a (object_of key_a []) DAList.empty)))"
proof -
  have acc: "Accessor opaque_object = Inl ErrNoAccessor"
    by (simp add: Accessor_def opaque_object_def)
  have "key_c \<in> {k. DAList.lookup (DAList.update key_c opaque_object DAList.empty) k
                      = Some opaque_object
                    \<and> DAList.lookup (DAList.update key_a (object_of key_a []) DAList.empty) k
                      = None}"
    by (simp add: DAList.lookup_update example_keys)
  then show ?thesis
    using shouldPrune_inaccessible_metadata [OF acc,
        of "DAList.update key_c opaque_object DAList.empty"
           "DAList.update key_a (object_of key_a []) DAList.empty"] acc
    by blast
qed

section \<open>The cross-version filter\<close>

lemma fold_filterCrossVersion_body:
  "fold (filterCrossVersion_body o' gk) keys acc =
     acc @ filter (\<lambda>key. \<not> (Contains (o_objs o') gk key
                             \<or> (Namespace key = o_defaultNamespace o'
                                \<and> Contains (o_objs o') gk \<lparr>Namespace = '''', Name = Name key\<rparr>)))
             keys"
  by (induction keys arbitrary: acc) (simp_all add: filterCrossVersion_body_def)

lemma Contains_iff:
  "Contains collection (GroupKind_of gvk) key
     = (\<exists>g. (g, key) \<in> set collection \<and> Group g = Group gvk \<and> Kind g = Kind gvk)"
  by (force simp: Contains_def GroupKind_of_def image_iff)

text \<open>
  C6, as the claim states it: only a match under a different version (or the default-namespace
  match) removes a candidate. A candidate whose key is in the overall collection under the very
  kind and version being processed is removed all the same.
\<close>

theorem filterCrossVersion_removes_same_version_match:
  "filterCrossVersion (plain_set\<lparr>o_objs := [(deployments_v1, key_a)]\<rparr>) deployments_v1 [key_a] = []
   \<and> filterCrossVersion_spec (plain_set\<lparr>o_objs := [(deployments_v1, key_a)]\<rparr>) deployments_v1 [key_a]
       = [key_a]"
  by (simp add: filterCrossVersion_def filterCrossVersion_body_def filterCrossVersion_spec_def
        Contains_def GroupKind_of_def plain_set_def deployments_v1_def key_a_def)

text \<open>
  C6, amended: the filter removes exactly the candidates whose key is in the overall desired
  collection under the same group and kind, in any version, and those whose namespace is the
  default namespace and whose name is in the collection under that group and kind with no
  namespace; all other candidates are kept, in order.
\<close>

theorem filterCrossVersion_filter:
  "filterCrossVersion o' gvk keys =
     filter
       (\<lambda>key. \<not> ((\<exists>g. (g, key) \<in> set (o_objs o') \<and> Group g = Group gvk \<and> Kind g = Kind gvk)
                 \<or> (Namespace key = o_defaultNamespace o'
                    \<and> (\<exists>g. (g, \<lparr>Namespace = '''', Name = Name key\<rparr>) \<in> set (o_objs o')
                            \<and> Group g = Group gvk \<and> Kind g = Kind gvk))))
       keys"
  by (simp add: filterCrossVersion_def fold_filterCrossVersion_body Contains_iff)

section \<open>The create and update phases\<close>

lemmas store_eval = recording_deps_def fresh_state_def empty_plan_def on_store_def o_err_def

text \<open>
  C7: when the create of a key fails with "already exists" and the following get succeeds,
  the key is appended to the update list, the fetched object becomes its existing state, and
  the error sink is left as it was; the update phase then runs on that key.
\<close>

theorem createF_already_exists_takes_over:
  assumes prep: "prepareObjectForCreate co gvk (DAList.lookup desired k) = Inr obj"
    and create: "do_create co nsed (Namespace k) client obj (st_store (ph_state ph)) = (err, s1)"
    and conflict: "IsAlreadyExists err"
    and got: "do_get co nsed (Namespace k) (Name k) client s1 = Inr existingObj"
  shows "createF co debugID gvk nsed client desired k ph =
           ph\<lparr>ph_state := (ph_state ph)\<lparr>st_store := s1\<rparr>,
              ph_toUpdate := ph_toUpdate ph @ [k],
              ph_existing := DAList.update k existingObj (ph_existing ph)\<rparr>
         \<and> st_errs (ph_state (createF co debugID gvk nsed client desired k ph))
             = st_errs (ph_state ph)
         \<and> DAList.lookup (ph_existing (createF co debugID gvk nsed client desired k ph)) k
             = Some existingObj
         \<and> process_phases co debugID gvk nsed client reconciler patcher desired [k] toDelete ph =
             fold (\<lambda>k'. deleteF co debugID gvk nsed client k' False) toDelete
               (fold (updateF co debugID gvk nsed client reconciler patcher desired
                        (DAList.update k existingObj (ph_existing ph)) [k] toDelete)
                  (ph_toUpdate ph @ [k]) ((ph_state ph)\<lparr>st_store := s1\<rparr>))"
proof -
  have eq: "createF co debugID gvk nsed client desired k ph =
           ph\<lparr>ph_state := (ph_state ph)\<lparr>st_store := s1\<rparr>,
              ph_toUpdate := ph_toUpdate ph @ [k],
              ph_existing := DAList.update k existingObj (ph_existing ph)\<rparr>"
    using assms by (simp add: createF_def on_store_def)
  show ?thesis
    by (simp add: eq process_phases_def)
qed

theorem createF_already_exists_takes_over_witness:
  "prepareObjectForCreate occupied_deps deployments_v1 (DAList.lookup desired_a key_a)
     = Inr (object_of key_a [])
   \<and> do_create occupied_deps True (Namespace key_a) () (object_of key_a [])
       (st_store (ph_state \<lparr>ph_state = fresh_state, ph_toUpdate = [key_b],
                            ph_existing = DAList.empty\<rparr>))
     = (Some (StatusError AlreadyExists), [])
   \<and> IsAlreadyExists (Some (StatusError AlreadyExists))
   \<and> do_get occupied_deps True (Namespace key_a) (Name key_a) () []
     = Inr (object_of key_a [(''found'', ''yes'')])
   \<and> createF occupied_deps ''id'' deployments_v1 True () desired_a key_a
       \<lparr>ph_state = fresh_state, ph_toUpdate = [key_b], ph_existing = DAList.empty\<rparr>
     = \<lparr>ph_state = fresh_state, ph_toUpdate = [key_b, key_a],
        ph_existing = DAList.update key_a (object_of key_a [(''found'', ''yes'')]) DAList.empty\<rparr>"
proof -
  have prep: "prepareObjectForCreate occupied_deps deployments_v1 (DAList.lookup desired_a key_a)
     = Inr (object_of key_a [])"
    by (simp add: occupied_deps_def recording_deps_def desired_a_def)
  have create: "do_create occupied_deps True (Namespace key_a) () (object_of key_a [])
       (st_store (ph_state \<lparr>ph_state = fresh_state, ph_toUpdate = [key_b],
                            ph_existing = DAList.empty\<rparr>))
     = (Some (StatusError AlreadyExists), [])"
    by (simp add: occupied_deps_def recording_deps_def fresh_state_def)
  have conflict: "IsAlreadyExists (Some (StatusError AlreadyExists))"
    by (simp add: IsAlreadyExists_def)
  have got: "do_get occupied_deps True (Namespace key_a) (Name key_a) () []
     = Inr (object_of key_a [(''found'', ''yes'')])"
    by (simp add: occupied_deps_def recording_deps_def key_a_def)
  show ?thesis
    using createF_already_exists_takes_over [OF prep create conflict got, of "''id''"] prep create got
    by (simp add: IsAlreadyExists_def fresh_state_def)
qed

text \<open>
  C9: when the create of a key fails with "already exists" and the following get fails as
  well, the key is not added to the update list and its existing state is not touched; the
  error reported as the create failure of the key is the one the create returned, not the one
  the get returned.
\<close>

theorem createF_already_exists_get_fails:
  assumes prep: "prepareObjectForCreate co gvk (DAList.lookup desired k) = Inr obj"
    and create: "do_create co nsed (Namespace k) client obj (st_store (ph_state ph)) = (Some e, s1)"
    and conflict: "IsAlreadyExists (Some e)"
    and refused: "do_get co nsed (Namespace k) (Name k) client s1 = Inl getErr"
  shows "createF co debugID gvk nsed client desired k ph =
           ph\<lparr>ph_state :=
                (ph_state ph)
                  \<lparr>st_store := s1,
                   st_errs := st_errs (ph_state ph) @
                     [Wrapf e ''failed to create %s %s for %s'' [K k, G gvk, S debugID]]\<rparr>\<rparr>
         \<and> ph_toUpdate (createF co debugID gvk nsed client desired k ph) = ph_toUpdate ph
         \<and> ph_existing (createF co debugID gvk nsed client desired k ph) = ph_existing ph"
proof -
  have eq: "createF co debugID gvk nsed client desired k ph =
           ph\<lparr>ph_state :=
                (ph_state ph)
                  \<lparr>st_store := s1,
                   st_errs := st_errs (ph_state ph) @
                     [Wrapf e ''failed to create %s %s for %s'' [K k, G gvk, S debugID]]\<rparr>\<rparr>"
    using assms by (simp add: createF_def on_store_def o_err_def)
  show ?thesis
    by (simp add: eq)
qed

theorem createF_already_exists_get_fails_witness:
  "prepareObjectForCreate unreadable_deps deployments_v1 (DAList.lookup desired_a key_a)
     = Inr (object_of key_a [])
   \<and> do_create unreadable_deps True (Namespace key_a) () (object_of key_a [])
       (st_store (ph_state \<lparr>ph_state = fresh_state, ph_toUpdate = [key_b],
                            ph_existing = DAList.empty\<rparr>))
     = (Some (StatusError AlreadyExists), [])
   \<and> IsAlreadyExists (Some (StatusError AlreadyExists))
   \<and> do_get unreadable_deps True (Namespace key_a) (Name key_a) () []
     = Inl (ErrOther ''get refused'')
   \<and> createF unreadable_deps ''id'' deployments_v1 True () desired_a key_a
       \<lparr>ph_state = fresh_state, ph_toUpdate = [key_b], ph_existing = DAList.empty\<rparr>
     = \<lparr>ph_state =
          fresh_state\<lparr>st_errs := [Wrapf (StatusError AlreadyExists)
                                    ''failed to create %s %s for %s''
                                    [K key_a, G deployments_v1, S ''id'']]\<rparr>,
        ph_toUpdate = [key_b], ph_existing = DAList.empty\<rparr>"
proof -
  have prep: "prepareObjectForCreate unreadable_deps deployments_v1 (DAList.lookup desired_a key_a)
     = Inr (object_of key_a [])"
    by (simp add: unreadable_deps_def recording_deps_def desired_a_def)
  have create: "do_create unreadable_deps True (Namespace key_a) () (object_of key_a [])
       (st_store (ph_state \<lparr>ph_state = fresh_state, ph_toUpdate = [key_b],
                            ph_existing = DAList.empty\<rparr>))
     = (Some (StatusError AlreadyExists), [])"
    by (simp add: unreadable_deps_def recording_deps_def fresh_state_def)
  have conflict: "IsAlreadyExists (Some (StatusError AlreadyExists))"
    by (simp add: IsAlreadyExists_def)
  have refused: "do_get unreadable_deps True (Namespace key_a) (Name key_a) () []
     = Inl (ErrOther ''get refused'')"
    by (simp add: unreadable_deps_def recording_deps_def)
  show ?thesis
    using createF_already_exists_get_fails [OF prep create conflict refused, of "''id''"]
      prep create refused
    by (simp add: IsAlreadyExists_def fresh_state_def)
qed

text \<open>
  C8: when the comparison step returns the replace sentinel for a key, the object is deleted
  with the force flag set and a "Replace Wait" error goes to the error sink; any other error
  of the step goes to the sink as an update failure; in both cases the loop goes on with the
  keys that follow.
\<close>

theorem updateF_replace_or_report:
  assumes compared:
    "compareObjects co gvk reconciler patcher client debugID
       (DAList.lookup existing k) (DAList.lookup desired k)
       (length toCreate > 0 \<or> length toDelete > 0) st = (Some e, st1)"
  shows "updateF co debugID gvk nsed client reconciler patcher desired existing toCreate toDelete k st
           = (if e = ErrReplace
              then o_err (Errorf ''DesiredSet - Replace Wait %s %s for %s''
                            [G gvk, K k, S debugID] None)
                     (deleteF co debugID gvk nsed client k True st1)
              else o_err (Wrapf e ''failed to update %s %s for %s'' [K k, G gvk, S debugID]) st1)
         \<and> st_store (deleteF co debugID gvk nsed client k True st1)
             = snd (do_delete co nsed (Namespace k) (Name k) client True gvk (st_store st1))
         \<and> fold (updateF co debugID gvk nsed client reconciler patcher desired existing
                    toCreate toDelete) (k # rest) st
             = fold (updateF co debugID gvk nsed client reconciler patcher desired existing
                       toCreate toDelete) rest
                 (updateF co debugID gvk nsed client reconciler patcher desired existing
                    toCreate toDelete k st)"
proof -
  have step: "updateF co debugID gvk nsed client reconciler patcher desired existing toCreate toDelete k st
           = (if e = ErrReplace
              then o_err (Errorf ''DesiredSet - Replace Wait %s %s for %s''
                            [G gvk, K k, S debugID] None)
                     (deleteF co debugID gvk nsed client k True st1)
              else o_err (Wrapf e ''failed to update %s %s for %s'' [K k, G gvk, S debugID]) st1)"
    using compared by (simp add: updateF_def)
  have forced: "st_store (deleteF co debugID gvk nsed client k True st1)
             = snd (do_delete co nsed (Namespace k) (Name k) client True gvk (st_store st1))"
    by (cases "do_delete co nsed (Namespace k) (Name k) client True gvk (st_store st1)")
       (simp add: deleteF_def on_store_def o_err_def split: option.splits)
  show ?thesis
    using step forced by simp
qed

theorem updateF_replace_or_report_witness:
  "compareObjects patching_deps deployments_v1 (Some (on_store_reconciler replace_reconciler))
       (on_store_patcher (createPatcher patching_deps ())) () ''id''
       (DAList.lookup desired_a_b key_b) (DAList.lookup desired_a_b key_b)
       (length [key_a] > 0 \<or> length ([] :: ObjectKey list) > 0) fresh_state
     = (Some ErrReplace, fresh_state)
   \<and> updateF patching_deps ''id'' deployments_v1 True ()
       (Some (on_store_reconciler replace_reconciler))
       (on_store_patcher (createPatcher patching_deps ())) desired_a_b desired_a_b [key_a] []
       key_b fresh_state
     = fresh_state
         \<lparr>st_store := [Deleted ''ns1'' ''b'' True],
          st_errs := [Errorf ''DesiredSet - Replace Wait %s %s for %s''
                        [G deployments_v1, K key_b, S ''id''] None]\<rparr>"
proof -
  have compared: "compareObjects patching_deps deployments_v1
       (Some (on_store_reconciler replace_reconciler))
       (on_store_patcher (createPatcher patching_deps ())) () ''id''
       (DAList.lookup desired_a_b key_b) (DAList.lookup desired_a_b key_b)
       (length [key_a] > 0 \<or> length ([] :: ObjectKey list) > 0) fresh_state
     = (Some ErrReplace, fresh_state)"
    by (simp add: patching_deps_def recording_deps_def compareObjects_spec_def
          replace_reconciler_def on_store_reconciler_def on_store_def fresh_state_def)
  have deleted: "deleteF patching_deps ''id'' deployments_v1 True () key_b True fresh_state
     = fresh_state\<lparr>st_store := [Deleted ''ns1'' ''b'' True]\<rparr>"
    by (simp add: deleteF_def patching_deps_def store_eval key_b_def)
  show ?thesis
    using updateF_replace_or_report [OF compared, of True] compared deleted
    by (simp add: o_err_def fresh_state_def)
qed

section \<open>The orchestrator\<close>

lemmas prepare_eval = process_prepare_def getControllerAndClient_def
  getControllerAndClient_strict_def adjustNamespace_def adjustNamespace_body_def
  clearNamespace_def clearNamespace_body_def

lemmas list_eval = list_def Namespaces_def list_result_def list_appendFn_def addObjectToMap_def
  Accessor_def NewErrors_def

lemmas phases_eval = process_diff_def process_phases_def createF_def updateF_def deleteF_def
  filterCrossVersion_def filterCrossVersion_body_def Contains_def GroupKind_of_def
  createPatcher_def compareObjects_spec_def IsAlreadyExists_def on_store_patcher_def
  on_store_reconciler_def

lemma planPatcher_result:
  "planPatcher co gvk namespace name pt data st =
     (case sanitizePatch co data True of
        Inl err \<Rightarrow> ((None, Some err), st)
      | Inr data' \<Rightarrow>
          ((None, None),
           if data' \<noteq> ''{}''
           then st\<lparr>st_plan := Update_Add gvk namespace name data' (st_plan st)\<rparr>
           else st))"
  by (simp add: planPatcher_def)

lemma updateF_plan_store:
  assumes cmp: "compareObjects co = compareObjects_spec diff"
    and own: "\<forall>old new. diff gvk old new False \<noteq> Inl ErrReplace"
    and sane: "\<forall>data. sanitizePatch co data True \<noteq> Inl ErrReplace"
  shows "st_store (updateF co debugID gvk nsed client None (planPatcher co gvk) desired existing
                     [] [] k st) = st_store st"
proof (cases "diff gvk (DAList.lookup existing k) (DAList.lookup desired k) False")
  case (Inl err)
  then have "err \<noteq> ErrReplace" using own by auto
  then show ?thesis
    using Inl by (simp add: updateF_def cmp compareObjects_spec_def o_err_def)
next
  case (Inr r)
  show ?thesis
  proof (cases r)
    case None
    then show ?thesis
      using Inr by (simp add: updateF_def cmp compareObjects_spec_def)
  next
    case (Some p)
    obtain namespace name pt data where p: "p = (namespace, name, pt, data)"
      by (cases p) auto
    show ?thesis
    proof (cases "sanitizePatch co data True")
      case (Inl err)
      then have "err \<noteq> ErrReplace" using sane by auto
      then show ?thesis
        using Inr Some p Inl
        by (simp add: updateF_def cmp compareObjects_spec_def planPatcher_result o_err_def)
    next
      case (Inr data')
      then show ?thesis
        using \<open>diff gvk (DAList.lookup existing k) (DAList.lookup desired k) False = Inr r\<close> Some p
        by (simp add: updateF_def cmp compareObjects_spec_def planPatcher_result Update_Add_def)
    qed
  qed
qed

lemma updateF_plan_plan:
  assumes cmp: "compareObjects co = compareObjects_spec diff"
    and own: "\<forall>old new. diff gvk old new False \<noteq> Inl ErrReplace"
    and sane: "\<forall>data. sanitizePatch co data True \<noteq> Inl ErrReplace"
  shows "st_plan (updateF co debugID gvk nsed client None (planPatcher co gvk) desired existing
                     [] [] k st)
           = (st_plan st)\<lparr>plan_Update := plan_Update (st_plan st)
                                            @ plan_record co diff gvk desired existing k\<rparr>"
proof (cases "diff gvk (DAList.lookup existing k) (DAList.lookup desired k) False")
  case (Inl err)
  then have "err \<noteq> ErrReplace" using own by auto
  then show ?thesis
    using Inl by (simp add: updateF_def cmp compareObjects_spec_def o_err_def plan_record_def)
next
  case (Inr r)
  show ?thesis
  proof (cases r)
    case None
    then show ?thesis
      using Inr by (simp add: updateF_def cmp compareObjects_spec_def plan_record_def)
  next
    case (Some p)
    obtain namespace name pt data where p: "p = (namespace, name, pt, data)"
      by (cases p) auto
    show ?thesis
    proof (cases "sanitizePatch co data True")
      case (Inl err)
      then have "err \<noteq> ErrReplace" using sane by auto
      then show ?thesis
        using Inr Some p Inl
        by (simp add: updateF_def cmp compareObjects_spec_def planPatcher_result o_err_def
              plan_record_def)
    next
      case (Inr data')
      then show ?thesis
        using \<open>diff gvk (DAList.lookup existing k) (DAList.lookup desired k) False = Inr r\<close> Some p
        by (simp add: updateF_def cmp compareObjects_spec_def planPatcher_result Update_Add_def
              plan_record_def)
    qed
  qed
qed

lemma fold_updateF_plan:
  assumes cmp: "compareObjects co = compareObjects_spec diff"
    and own: "\<forall>old new. diff gvk old new False \<noteq> Inl ErrReplace"
    and sane: "\<forall>data. sanitizePatch co data True \<noteq> Inl ErrReplace"
  shows "st_store (fold (updateF co debugID gvk nsed client None (planPatcher co gvk) desired
                           existing [] []) ks st) = st_store st
         \<and> st_plan (fold (updateF co debugID gvk nsed client None (planPatcher co gvk) desired
                           existing [] []) ks st)
             = (st_plan st)\<lparr>plan_Update := plan_Update (st_plan st)
                  @ concat (map (plan_record co diff gvk desired existing) ks)\<rparr>"
proof (induction ks arbitrary: st)
  case Nil
  show ?case by simp
next
  case (Cons k ks)
  show ?case
    by (simp add: Cons.IH updateF_plan_store [OF cmp own sane] updateF_plan_plan [OF cmp own sane])
qed

lemma compareSets_triple:
  "compareSets ex new
     = (toCreate_of (compareSets ex new), toDelete_of (compareSets ex new),
        toUpdate_of (compareSets ex new))"
  by (simp add: toCreate_of_def toDelete_of_def toUpdate_of_def)

lemma process_diff_plan:
  assumes plan: "o_createPlan o'"
  shows "process_diff co o' debugID gvk nsed client reconciler patcher desired existing st =
           fold (updateF co debugID gvk nsed client None (planPatcher co gvk) desired existing [] [])
             (toUpdate_of (compareSets existing desired))
             (st\<lparr>st_plan := (st_plan st)
                   \<lparr>plan_Create := (plan_Create (st_plan st))
                                      (gvk \<mapsto> toCreate_of (compareSets existing desired)),
                    plan_Delete := (plan_Delete (st_plan st))
                                      (gvk \<mapsto> filterCrossVersion o' gvk
                                                (toDelete_of (compareSets existing desired)))\<rparr>\<rparr>)"
  using plan
  by (subst process_diff_def, subst compareSets_triple) (simp add: process_phases_def)

lemma process_diff_plan_store_plan:
  assumes plan: "o_createPlan o'"
    and cmp: "compareObjects co = compareObjects_spec diff"
    and own: "\<forall>old new. diff gvk old new False \<noteq> Inl ErrReplace"
    and sane: "\<forall>data. sanitizePatch co data True \<noteq> Inl ErrReplace"
  shows "st_store (process_diff co o' debugID gvk nsed client reconciler patcher desired existing st)
           = st_store st"
    and "st_plan (process_diff co o' debugID gvk nsed client reconciler patcher desired existing st)
           = \<lparr>plan_Create = (plan_Create (st_plan st))
                                 (gvk \<mapsto> toCreate_of (compareSets existing desired)),
              plan_Delete = (plan_Delete (st_plan st))
                                 (gvk \<mapsto> filterCrossVersion o' gvk
                                           (toDelete_of (compareSets existing desired))),
              plan_Update = plan_Update (st_plan st)
                 @ concat (map (plan_record co diff gvk desired existing)
                             (toUpdate_of (compareSets existing desired)))\<rparr>"
  by (simp_all add: process_diff_plan [OF plan] fold_updateF_plan [OF cmp own sane])

lemma process_plan_store:
  assumes plan: "o_createPlan o'"
    and cmp: "compareObjects co = compareObjects_spec diff"
    and own: "\<forall>old new. diff gvk old new False \<noteq> Inl ErrReplace"
    and sane: "\<forall>data. sanitizePatch co data True \<noteq> Inl ErrReplace"
  shows "st_store (process co o' debugID sel gvk desired st) = st_store st"
  by (simp add: process_def process_reconcile_def o_err_def
        process_diff_plan_store_plan(1) [OF plan cmp own sane]
      split: sum.splits prod.splits option.splits)

lemma process_plan_plan:
  assumes plan: "o_createPlan o'"
    and cmp: "compareObjects co = compareObjects_spec diff"
    and own: "\<forall>old new. diff gvk old new False \<noteq> Inl ErrReplace"
    and sane: "\<forall>data. sanitizePatch co data True \<noteq> Inl ErrReplace"
  shows "st_plan (process co o' debugID sel gvk desired st) =
     (case process_prepare co o' debugID gvk desired of
        Inl err \<Rightarrow> st_plan st
      | Inr (nsed, controller, client, desired') \<Rightarrow>
          (case list co o' nsed controller client sel desired' (st_store st) of
             (existing, Some err) \<Rightarrow> st_plan st
           | (existing, None) \<Rightarrow>
               \<lparr>plan_Create = (plan_Create (st_plan st))
                                 (gvk \<mapsto> toCreate_of (compareSets existing desired')),
                plan_Delete = (plan_Delete (st_plan st))
                                 (gvk \<mapsto> filterCrossVersion o' gvk
                                           (toDelete_of (compareSets existing desired'))),
                plan_Update = plan_Update (st_plan st)
                   @ concat (map (plan_record co diff gvk desired' existing)
                               (toUpdate_of (compareSets existing desired')))\<rparr>))"
  by (simp add: process_def process_reconcile_def o_err_def
        process_diff_plan_store_plan(2) [OF plan cmp own sane]
      split: sum.splits prod.splits option.splits)

lemma prepare_ignores_patchers:
  "process_prepare co (o'\<lparr>o_patchers := ps, o_reconcilers := rs\<rparr>) debugID gvk desired
     = process_prepare co o' debugID gvk desired"
proof -
  have strict: "\<And>i c. getControllerAndClient_strict (o'\<lparr>o_patchers := ps, o_reconcilers := rs\<rparr>)
                   debugID gvk i c = getControllerAndClient_strict o' debugID gvk i c"
    by (simp add: getControllerAndClient_strict_def)
  have gcc: "getControllerAndClient co (o'\<lparr>o_patchers := ps, o_reconcilers := rs\<rparr>) debugID gvk
               = getControllerAndClient co o' debugID gvk"
    by (simp add: getControllerAndClient_def strict Let_def cong: sum.case_cong option.case_cong)
  have body: "\<And>ownerMeta ownerGVK ownerNSed.
      assignOwnerReference_body co (o'\<lparr>o_patchers := ps, o_reconcilers := rs\<rparr>) gvk ownerMeta
        ownerGVK ownerNSed
      = assignOwnerReference_body co o' gvk ownerMeta ownerGVK ownerNSed"
    by (intro ext) (simp add: assignOwnerReference_body_def Let_def cong: sum.case_cong if_cong)
  have own: "\<And>m. assignOwnerReference co (o'\<lparr>o_patchers := ps, o_reconcilers := rs\<rparr>) gvk m
               = assignOwnerReference co o' gvk m"
    by (simp add: assignOwnerReference_def body cong: sum.case_cong option.case_cong)
  have abody: "adjustNamespace_body (o'\<lparr>o_patchers := ps, o_reconcilers := rs\<rparr>)
                 = adjustNamespace_body o'"
    by (intro ext) (simp add: adjustNamespace_body_def Let_def cong: sum.case_cong if_cong)
  have adj: "\<And>m. adjustNamespace (o'\<lparr>o_patchers := ps, o_reconcilers := rs\<rparr>) gvk m
               = adjustNamespace o' gvk m"
    by (simp add: adjustNamespace_def abody)
  have clr: "\<And>m. clearNamespace (o'\<lparr>o_patchers := ps, o_reconcilers := rs\<rparr>) m
               = clearNamespace o' m"
    by (simp add: clearNamespace_def)
  show ?thesis
    by (simp add: process_prepare_def gcc own adj clr cong: sum.case_cong option.case_cong prod.case_cong if_cong)
qed

lemma list_ignores_patchers:
  "list co (o'\<lparr>o_patchers := ps, o_reconcilers := rs\<rparr>) nsed controller client sel desired s
     = list co o' nsed controller client sel desired s"
  by (simp add: list_def Let_def cong: option.case_cong if_cong)

lemma filterCrossVersion_ignores_patchers:
  "filterCrossVersion (o'\<lparr>o_patchers := ps, o_reconcilers := rs\<rparr>) gvk keys
     = filterCrossVersion o' gvk keys"
proof -
  have "\<And>gk. filterCrossVersion_body (o'\<lparr>o_patchers := ps, o_reconcilers := rs\<rparr>) gk
              = filterCrossVersion_body o' gk"
    by (intro ext) (simp add: filterCrossVersion_body_def cong: if_cong)
  then show ?thesis
    by (simp add: filterCrossVersion_def)
qed

lemma process_plan_ignores_patchers:
  assumes plan: "o_createPlan o'"
  shows "process co (o'\<lparr>o_patchers := ps, o_reconcilers := rs\<rparr>) debugID sel gvk desired st
           = process co o' debugID sel gvk desired st"
proof -
  have plan': "o_createPlan (o'\<lparr>o_patchers := ps, o_reconcilers := rs\<rparr>)"
    using plan by simp
  have diff: "\<And>nsed client r p r' p' d e.
      process_diff co (o'\<lparr>o_patchers := ps, o_reconcilers := rs\<rparr>) debugID gvk nsed client r p d e st
      = process_diff co o' debugID gvk nsed client r' p' d e st"
    by (simp add: process_diff_plan [OF plan] process_diff_plan [OF plan']
          filterCrossVersion_ignores_patchers)
  have rec: "\<And>nsed controller client d.
      process_reconcile co (o'\<lparr>o_patchers := ps, o_reconcilers := rs\<rparr>) debugID sel gvk nsed
        controller client d st
      = process_reconcile co o' debugID sel gvk nsed controller client d st"
    unfolding process_reconcile_def Let_def list_ignores_patchers
    by (auto split: prod.splits option.splits intro: diff)
  show ?thesis
    by (simp add: process_def prepare_ignores_patchers rec cong: sum.case_cong prod.case_cong)
qed

lemma half_listed_prepare:
  "process_prepare half_listed_deps set_a_z ''id'' deployments_v1 desired_a_z
     = Inr (True, None, (), desired_a_z)"
  by (simp add: prepare_eval half_listed_deps_def recording_deps_def set_a_z_def plain_set_def
        desired_a_z_def alist_eval example_keys)

lemma half_listed_list:
  "list half_listed_deps set_a_z True None () ''sel'' desired_a_z []
     = (DAList.update key_b (object_of key_b []) DAList.empty,
        Some (Errors [ErrOther ''ns2 unavailable'']))"
  by (simp add: list_eval half_listed_deps_def recording_deps_def set_a_z_def plain_set_def
        desired_a_z_def alist_eval example_keys)

text \<open>
  C1, as the claim states it: with a listing that returns an error and a partly filled map,
  \<^verbatim>\<open>process\<close> goes on with the map. Here the listing of \<^verbatim>\<open>ns2\<close> fails and that of \<^verbatim>\<open>ns1\<close>
  returns \<^verbatim>\<open>ns1/b\<close>; diffing against that map would create two objects and delete one, and
  \<^verbatim>\<open>process\<close> reports the listing error and makes no call at all.
\<close>

theorem process_discards_partial_listing:
  "list half_listed_deps set_a_z True None () ''sel'' desired_a_z []
     = (DAList.update key_b (object_of key_b []) DAList.empty,
        Some (Errors [ErrOther ''ns2 unavailable'']))
   \<and> st_store (process_diff half_listed_deps set_a_z ''id'' deployments_v1 True () None
        (createPatcher half_listed_deps ()) desired_a_z
        (DAList.update key_b (object_of key_b []) DAList.empty) fresh_state)
     = [Created ''ns1'' (object_of key_a []), Created ''ns2'' (object_of key_z []),
        Deleted ''ns1'' ''b'' False]
   \<and> process half_listed_deps set_a_z ''id'' ''sel'' deployments_v1 desired_a_z fresh_state
     = fresh_state\<lparr>st_errs := [Wrapf (Errors [ErrOther ''ns2 unavailable''])
                                  ''failed to list %s for %s'' [G deployments_v1, S ''id'']]\<rparr>"
proof -
  have diffed: "st_store (process_diff half_listed_deps set_a_z ''id'' deployments_v1 True () None
        (createPatcher half_listed_deps ()) desired_a_z
        (DAList.update key_b (object_of key_b []) DAList.empty) fresh_state)
     = [Created ''ns1'' (object_of key_a []), Created ''ns2'' (object_of key_z []),
        Deleted ''ns1'' ''b'' False]"
    by (simp add: phases_eval differ_eval half_listed_deps_def store_eval set_a_z_def
          plain_set_def deployments_v1_def desired_a_z_def alist_eval example_keys)
  have run: "process half_listed_deps set_a_z ''id'' ''sel'' deployments_v1 desired_a_z fresh_state
     = fresh_state\<lparr>st_errs := [Wrapf (Errors [ErrOther ''ns2 unavailable''])
                                  ''failed to list %s for %s'' [G deployments_v1, S ''id'']]\<rparr>"
    by (simp add: process_def process_reconcile_def half_listed_prepare half_listed_list
          o_err_def fresh_state_def)
  show ?thesis
    using half_listed_list diffed run by simp
qed

text \<open>
  C1, amended: when the listing returns an error, \<^verbatim>\<open>process\<close> sends it to the error sink,
  wrapped as "failed to list", and returns; the map returned with the error is not used, and
  neither the store nor the plan is touched for that kind.
\<close>

theorem process_list_error_ends_the_kind:
  assumes prepared:
      "process_prepare co o' debugID gvk desired = Inr (nsed, controller, client, desired')"
    and listed: "list co o' nsed controller client sel desired' (st_store st) = (existing, Some err)"
  shows "process co o' debugID sel gvk desired st
           = o_err (Wrapf err ''failed to list %s for %s'' [G gvk, S debugID]) st
         \<and> st_store (process co o' debugID sel gvk desired st) = st_store st
         \<and> st_plan (process co o' debugID sel gvk desired st) = st_plan st"
  using assms by (simp add: process_def process_reconcile_def o_err_def)

theorem process_list_error_ends_the_kind_witness:
  "process_prepare half_listed_deps set_a_z ''id'' deployments_v1 desired_a_z
     = Inr (True, None, (), desired_a_z)
   \<and> list half_listed_deps set_a_z True None () ''sel'' desired_a_z (st_store fresh_state)
     = (DAList.update key_b (object_of key_b []) DAList.empty,
        Some (Errors [ErrOther ''ns2 unavailable'']))
   \<and> st_errs (process half_listed_deps set_a_z ''id'' ''sel'' deployments_v1 desired_a_z
               fresh_state)
     = [Wrapf (Errors [ErrOther ''ns2 unavailable'']) ''failed to list %s for %s''
          [G deployments_v1, S ''id'']]
   \<and> st_store (process half_listed_deps set_a_z ''id'' ''sel'' deployments_v1 desired_a_z
                fresh_state) = []"
proof -
  have listed: "list half_listed_deps set_a_z True None () ''sel'' desired_a_z
                  (st_store fresh_state)
     = (DAList.update key_b (object_of key_b []) DAList.empty,
        Some (Errors [ErrOther ''ns2 unavailable'']))"
    using half_listed_list by (simp add: fresh_state_def)
  show ?thesis
    using process_list_error_ends_the_kind [OF half_listed_prepare listed]
      half_listed_prepare listed
    by (simp add: o_err_def fresh_state_def)
qed

text \<open>
  C2, on the code: a run with no owner, no informer and no lister namespace, whose desired
  set is \<^verbatim>\<open>ns1/a\<close>, against a store that lists \<^verbatim>\<open>ns1/a\<close> and \<^verbatim>\<open>ns1/c\<close> in \<^verbatim>\<open>ns1\<close>, deletes
  \<^verbatim>\<open>ns1/c\<close>.
\<close>

theorem process_without_owner_deletes:
  "o_owner set_a = None
   \<and> toDelete_of (compareSets
         (fst (list leftover_deps set_a True None () ''sel'' desired_a []))
         desired_a) = [key_c]
   \<and> process leftover_deps set_a ''id'' ''sel'' deployments_v1 desired_a fresh_state
     = fresh_state\<lparr>st_store := [Deleted ''ns1'' ''c'' False]\<rparr>"
proof -
  have cands: "toDelete_of (compareSets
         (fst (list leftover_deps set_a True None () ''sel'' desired_a []))
         desired_a) = [key_c]"
    by (simp add: list_eval differ_eval leftover_deps_def recording_deps_def set_a_def
          plain_set_def desired_a_def alist_eval example_keys)
  have run: "process leftover_deps set_a ''id'' ''sel'' deployments_v1 desired_a fresh_state
     = fresh_state\<lparr>st_store := [Deleted ''ns1'' ''c'' False]\<rparr>"
    by (simp add: process_def process_reconcile_def prepare_eval list_eval phases_eval differ_eval
          leftover_deps_def store_eval set_a_def plain_set_def deployments_v1_def desired_a_def
          alist_eval example_keys)
  show ?thesis
    using cands run by (simp add: set_a_def plain_set_def)
qed

text \<open>
  C3: in plan mode \<^verbatim>\<open>process\<close> leaves the store as it was. The create and delete lists go
  into the plan under the kind and the loops over them run on empty lists; the update list is
  handed to the comparison step with no reconciler and with the recording patcher, so the
  outcome does not depend on the patchers and reconcilers of the caller; and the plan's update
  list grows by the sanitized body of each update whose body is not \<^verbatim>\<open>{}\<close>. The comparison
  step is \<^const>\<open>compareObjects_spec\<close>; neither its own failures nor those of the sanitizer
  are the replace sentinel, which in the source only a patch function returns.
\<close>

theorem process_plan_mode_records_only:
  assumes plan: "o_createPlan o'"
    and cmp: "compareObjects co = compareObjects_spec diff"
    and own: "\<forall>old new. diff gvk old new False \<noteq> Inl ErrReplace"
    and sane: "\<forall>data. sanitizePatch co data True \<noteq> Inl ErrReplace"
  shows "st_store (process co o' debugID sel gvk desired st) = st_store st
         \<and> process co (o'\<lparr>o_patchers := ps, o_reconcilers := rs\<rparr>) debugID sel gvk desired st
             = process co o' debugID sel gvk desired st
         \<and> st_plan (process co o' debugID sel gvk desired st) =
             (case process_prepare co o' debugID gvk desired of
                Inl err \<Rightarrow> st_plan st
              | Inr (nsed, controller, client, desired') \<Rightarrow>
                  (case list co o' nsed controller client sel desired' (st_store st) of
                     (existing, Some err) \<Rightarrow> st_plan st
                   | (existing, None) \<Rightarrow>
                       \<lparr>plan_Create = (plan_Create (st_plan st))
                                         (gvk \<mapsto> toCreate_of (compareSets existing desired')),
                        plan_Delete = (plan_Delete (st_plan st))
                                         (gvk \<mapsto> filterCrossVersion o' gvk
                                                   (toDelete_of (compareSets existing desired'))),
                        plan_Update = plan_Update (st_plan st)
                           @ concat (map (plan_record co diff gvk desired' existing)
                                       (toUpdate_of (compareSets existing desired')))\<rparr>))"
proof (intro conjI)
  show "st_store (process co o' debugID sel gvk desired st) = st_store st"
    by (rule process_plan_store [OF plan cmp own sane])
  show "process co (o'\<lparr>o_patchers := ps, o_reconcilers := rs\<rparr>) debugID sel gvk desired st
          = process co o' debugID sel gvk desired st"
    by (rule process_plan_ignores_patchers [OF plan])
qed (rule process_plan_plan [OF plan cmp own sane])

lemma planning_prepare:
  "process_prepare planning_deps planning_set ''id'' deployments_v1 desired_a_b
     = Inr (True, None, (), desired_a_b)"
  by (simp add: prepare_eval planning_deps_def planning_set_def recording_deps_def plain_set_def
        desired_a_b_def alist_eval example_keys)

lemma planning_list:
  "list planning_deps planning_set True None () ''sel'' desired_a_b []
     = (DAList.update key_c (object_of key_c [])
          (DAList.update key_b (object_of key_b []) DAList.empty), None)"
  by (simp add: list_eval planning_deps_def planning_set_def recording_deps_def plain_set_def
        desired_a_b_def alist_eval example_keys)

lemma planning_sets:
  "compareSets (DAList.update key_c (object_of key_c [])
                  (DAList.update key_b (object_of key_b []) DAList.empty)) desired_a_b
     = ([key_a], [key_c], [key_b])"
  by (simp add: differ_eval desired_a_b_def alist_eval example_keys)

theorem process_plan_mode_records_only_witness:
  "o_createPlan planning_set
   \<and> compareObjects planning_deps = compareObjects_spec patching_diff
   \<and> (\<forall>old new. patching_diff deployments_v1 old new False \<noteq> Inl ErrReplace)
   \<and> (\<forall>data. sanitizePatch planning_deps data True \<noteq> Inl ErrReplace)
   \<and> st_store (process planning_deps planning_set ''id'' ''sel'' deployments_v1 desired_a_b
                fresh_state) = []
   \<and> plan_Create (st_plan (process planning_deps planning_set ''id'' ''sel'' deployments_v1
                              desired_a_b fresh_state)) deployments_v1 = Some [key_a]
   \<and> plan_Delete (st_plan (process planning_deps planning_set ''id'' ''sel'' deployments_v1
                              desired_a_b fresh_state)) deployments_v1 = Some [key_c]
   \<and> plan_Update (st_plan (process planning_deps planning_set ''id'' ''sel'' deployments_v1
                              desired_a_b fresh_state))
       = [(deployments_v1, ''ns1'', ''b'', ''{replicas}'')]"
proof -
  have plan: "o_createPlan planning_set"
    by (simp add: planning_set_def)
  have cmp: "compareObjects planning_deps = compareObjects_spec patching_diff"
    by (simp add: planning_deps_def)
  have own: "\<forall>old new. patching_diff deployments_v1 old new False \<noteq> Inl ErrReplace"
    by (simp add: patching_diff_def)
  have sane: "\<forall>data. sanitizePatch planning_deps data True \<noteq> Inl ErrReplace"
    by (simp add: planning_deps_def recording_deps_def)
  have filtered: "filterCrossVersion planning_set deployments_v1 [key_c] = [key_c]"
    by (simp add: filterCrossVersion_def filterCrossVersion_body_def Contains_def
          GroupKind_of_def planning_set_def plain_set_def example_keys)
  have recorded: "plan_record planning_deps patching_diff deployments_v1 desired_a_b
                    (DAList.update key_c (object_of key_c [])
                       (DAList.update key_b (object_of key_b []) DAList.empty)) key_b
     = [(deployments_v1, ''ns1'', ''b'', ''{replicas}'')]"
    by (simp add: plan_record_def patching_diff_def planning_deps_def recording_deps_def)
  show ?thesis
    using process_plan_mode_records_only [OF plan cmp own sane,
        of "''id''" "''sel''" desired_a_b fresh_state] plan cmp own sane
    by (simp add: planning_prepare planning_list planning_sets filtered recorded
          toCreate_of_def toDelete_of_def toUpdate_of_def fresh_state_def empty_plan_def)
qed

end
